theory Spec2Isabelle
  imports Main
begin

section \<open>Group aliases of the identity store\<close>

text \<open>
  A shallow embedding of \<^verbatim>\<open>vault/identity_store_group_aliases.go\<close>: the handlers
  \<^verbatim>\<open>pathGroupAliasRegister\<close>, \<^verbatim>\<open>pathGroupAliasIDUpdate\<close>,
  \<^verbatim>\<open>handleGroupAliasUpdateCommon\<close>, \<^verbatim>\<open>pathGroupAliasIDRead\<close> and
  \<^verbatim>\<open>pathAliasIDDelete\<close>. The identity store is passed explicitly and returned
  updated; the group lock is not modelled (one handler runs at a time).
\<close>

subsection \<open>Data\<close>

text \<open>\<^verbatim>\<open>identity.Alias\<close>: the fields the handlers read and write.\<close>

record Alias =
  alias_ID :: string
  alias_Name :: string
  alias_MountType :: string
  alias_MountAccessor :: string
  alias_GroupID :: string

text \<open>\<^verbatim>\<open>identity.Group\<close>: its id and the aliases it holds.\<close>

record Group =
  group_ID :: string
  group_Alias :: "Alias list"

text \<open>What \<^verbatim>\<open>validateMountAccessorFunc\<close> answers for a known accessor.\<close>

record MountValidationResp =
  mvr_MountAccessor :: string
  mvr_MountType :: string

text \<open>
  \<^verbatim>\<open>IdentityStore\<close>: the MemDB tables of group aliases and of groups, the packed
  storage of groups, the mount validator (the function-valued field
  \<^verbatim>\<open>validateMountAccessorFunc\<close> of the source, which answers nothing for an
  unknown accessor) and the number of identifiers generated so far.
\<close>

record IdentityStore =
  groupAliases :: "Alias list"
  groups :: "Group list"
  groupPacker :: "Group list"
  validateMountAccessorFunc :: "string \<Rightarrow> MountValidationResp option"
  uuidCounter :: nat

text \<open>
  \<^verbatim>\<open>framework.FieldData\<close>, the decoded request: the raw fields it carries, by
  name; the schemas of lines 17 to 34 give them all the type string. The type is declared
  outside the source file; a request carries a field or not (sections 4.1 and 6 of the
  spec: \<^verbatim>\<open>id?\<close>, \<^verbatim>\<open>group_id?\<close>, "present and non-empty").
\<close>

type_synonym FieldData = "(string \<times> string) list"

text \<open>
  Modelled from the spec: \<^verbatim>\<open>GetOk\<close> of \<^verbatim>\<open>framework.FieldData\<close>, which is not in
  the source file. Its second result, the only one line 84 uses, tells whether the request
  carries the field.
\<close>

definition GetOk :: "FieldData \<Rightarrow> string \<Rightarrow> bool" where
  "GetOk d k = (map_of d k \<noteq> None)"

text \<open>
  Modelled from the spec: \<^verbatim>\<open>Get\<close> of \<^verbatim>\<open>framework.FieldData\<close>, which is not in
  the source file. It gives the field's value, and the zero value of a string, the empty
  string, when the request does not carry the field.
\<close>

definition Get :: "FieldData \<Rightarrow> string \<Rightarrow> string" where
  "Get d k = (case map_of d k of None \<Rightarrow> [] | Some v \<Rightarrow> v)"

text \<open>
  \<^verbatim>\<open>fmt.Sprintf(format, a...)\<close> with string arguments, as at lines 153 and 204. The
  text it gives is the formatting of the Go library (the verb \<^verbatim>\<open>%q\<close> quotes its
  argument and escapes what is inside the quotes), which the model does not interpret: the
  value keeps the format and the arguments.
\<close>

datatype formatted = Sprintf string "string list"

text \<open>
  A handler returns \<^verbatim>\<open>(*logical.Response, error)\<close>. \<open>ErrorResponse m\<close> is
  \<^verbatim>\<open>logical.ErrorResponse(m), nil\<close> for a literal message (a user error),
  \<open>ErrorResponseFmt f\<close> the same for a message built by \<^verbatim>\<open>fmt.Sprintf\<close>;
  \<open>Err m\<close> is \<^verbatim>\<open>nil, err\<close>.
\<close>

datatype error = ErrorResponse string | ErrorResponseFmt formatted | Err string

record Response =
  Data_id :: string
  Data_group_id :: string
  Warnings :: "formatted list"

subsection \<open>The MemDB tables\<close>

text \<open>
  The lookups of the in-memory index are not in the source file. Section 6 of the spec
  gives their keys: alias by id, alias by (mount accessor, name), group by id, and group
  by alias id. Each returns the entry or nothing: the lookups of the model cannot fail,
  so the source's returns of a lookup's error have no branch here. The source's last
  argument asks for a copy of the entry; a value of the model is one already.
\<close>

text \<open>
  Modelled from the spec: \<^verbatim>\<open>memDBGroupAliasByID\<close>, the alias of the index that has
  the id.
\<close>

definition memDBGroupAliasByID :: "IdentityStore \<Rightarrow> string \<Rightarrow> Alias option" where
  "memDBGroupAliasByID i k = find (\<lambda>a. alias_ID a = k) (groupAliases i)"

text \<open>
  Modelled from the spec: \<^verbatim>\<open>memDBGroupAliasByFactors\<close>, the alias of the index that
  has the mount accessor and the name (the factor match of 4.1 a).
\<close>

definition memDBGroupAliasByFactors :: "IdentityStore \<Rightarrow> string \<Rightarrow> string \<Rightarrow> Alias option" where
  "memDBGroupAliasByFactors i accessor name =
     find (\<lambda>a. alias_MountAccessor a = accessor \<and> alias_Name a = name) (groupAliases i)"

text \<open>
  Modelled from the spec: \<^verbatim>\<open>memDBGroupByID\<close>, the group of the index that has the id.
\<close>

definition memDBGroupByID :: "IdentityStore \<Rightarrow> string \<Rightarrow> Group option" where
  "memDBGroupByID i k = find (\<lambda>g. group_ID g = k) (groups i)"

text \<open>
  Modelled from the spec: \<^verbatim>\<open>memDBGroupByAliasID\<close>, the group of the index whose
  alias set holds an alias with the id (the key is derived from the groups' alias sets).
\<close>

definition memDBGroupByAliasID :: "IdentityStore \<Rightarrow> string \<Rightarrow> Group option" where
  "memDBGroupByAliasID i k = find (\<lambda>g. k \<in> set (map alias_ID (group_Alias g))) (groups i)"

text \<open>
  Modelled from the spec: writing one entry of a table of MemDB or of the packed storage,
  whose insert is not in the source file. The keys are unique (section 6): the entry that
  has the key is replaced, and an entry with a new key is added at the end.
\<close>

fun upsert :: "('a \<Rightarrow> string) \<Rightarrow> 'a \<Rightarrow> 'a list \<Rightarrow> 'a list" where
  "upsert key x [] = [x]"
| "upsert key x (y # ys) = (if key y = key x then x # ys else y # upsert key x ys)"

text \<open>
  Modelled from the spec: \<^verbatim>\<open>deleteAliasFromGroup\<close>, which is not in the source file.
  It removes the alias from the group's alias set (4.1 c); entries are found by the
  alias's id.
\<close>

definition deleteAliasFromGroup :: "Group \<Rightarrow> Alias \<Rightarrow> Group" where
  "deleteAliasFromGroup g a =
     g\<lparr>group_Alias := filter (\<lambda>x. alias_ID x \<noteq> alias_ID a) (group_Alias g)\<rparr>"

text \<open>
  Modelled from the spec: \<^verbatim>\<open>updateAliasInGroup\<close>, which is not in the source file.
  It replaces the alias within the group's alias set (4.1 c). The source hands it the
  alias object: entries are found by the id the object has at the call (line 207), and the
  group then holds the object itself, whose fields are assigned afterwards (lines 224 to
  230). So the model takes that id and the value to store separately.
\<close>

definition updateAliasInGroup :: "Group \<Rightarrow> string \<Rightarrow> Alias \<Rightarrow> Group" where
  "updateAliasInGroup g k a =
     g\<lparr>group_Alias := map (\<lambda>x. if alias_ID x = k then a else x) (group_Alias g)\<rparr>"

text \<open>
  Modelled from the spec: the generator of identifiers, which is not in the source file.
  It gives opaque unique identifiers (section 3): the n-th one is \<open>genUUID n\<close>, never
  empty and never the same for two numbers.
\<close>

definition genUUID :: "nat \<Rightarrow> string" where
  "genUUID n = ''uuid-'' @ replicate n (CHR ''i'')"

text \<open>
  Modelled from the spec: \<^verbatim>\<open>sanitizeGroup\<close>, which is not in the source file. It
  generates an id for a group that has none and leaves an existing id untouched (4.1 d).
\<close>

definition sanitizeGroup :: "IdentityStore \<Rightarrow> Group \<Rightarrow> Group \<times> IdentityStore" where
  "sanitizeGroup i g =
     (if group_ID g = [] then
        (g\<lparr>group_ID := genUUID (uuidCounter i)\<rparr>, i\<lparr>uuidCounter := Suc (uuidCounter i)\<rparr>)
      else (g, i))"

text \<open>
  Modelled from the spec: \<^verbatim>\<open>sanitizeGroupAlias\<close>, which is not in the source file.
  It generates an id for an alias that has none and leaves an existing id untouched
  (4.1 d).
\<close>

definition sanitizeGroupAlias :: "IdentityStore \<Rightarrow> Alias \<Rightarrow> Alias \<times> IdentityStore" where
  "sanitizeGroupAlias i a =
     (if alias_ID a = [] then
        (a\<lparr>alias_ID := genUUID (uuidCounter i)\<rparr>, i\<lparr>uuidCounter := Suc (uuidCounter i)\<rparr>)
      else (a, i))"

text \<open>
  Modelled from the spec: \<^verbatim>\<open>upsertGroup\<close>, which is not in the source file. It
  writes the group, and the previous group of a transfer, to the packed storage when asked
  to persist, and commits both to the index (4.1 f); the comment at lines 235 to 238 adds
  that the group is indexed along with its aliases.
\<close>

definition upsertGroup :: "IdentityStore \<Rightarrow> Group \<Rightarrow> Group option \<Rightarrow> bool \<Rightarrow> IdentityStore" where
  "upsertGroup i grp previousGroup persist =
     (let put = (\<lambda>t. upsert group_ID grp
                   (case previousGroup of None \<Rightarrow> t | Some p \<Rightarrow> upsert group_ID p t))
      in i\<lparr>groupAliases := foldl (\<lambda>t a. upsert alias_ID a t) (groupAliases i) (group_Alias grp),
           groups := put (groups i),
           groupPacker := (if persist then put (groupPacker i) else groupPacker i)\<rparr>)"

text \<open>
  Modelled from the spec: \<^verbatim>\<open>deleteGroupAlias\<close>, which is not in the source file
  (4.3). An id that denotes no alias is a success with nothing done. Otherwise the alias
  leaves its owning group's alias set, the group is written to the index and to the
  packed storage, and the alias leaves the index. An alias without an owning group is the
  internal consistency error of section 7. The result is the error, if any.
\<close>

definition deleteGroupAlias :: "IdentityStore \<Rightarrow> string \<Rightarrow> string option \<times> IdentityStore" where
  "deleteGroupAlias i k =
     (case memDBGroupAliasByID i k of
        None \<Rightarrow> (None, i)
      | Some a \<Rightarrow>
          (case memDBGroupByAliasID i (alias_ID a) of
             None \<Rightarrow> (Some ''group alias is not associated with a group'', i)
           | Some g \<Rightarrow>
               (let g' = deleteAliasFromGroup g a
                in (None, i\<lparr>groupAliases := filter (\<lambda>x. alias_ID x \<noteq> alias_ID a) (groupAliases i),
                            groups := upsert group_ID g' (groups i),
                            groupPacker := upsert group_ID g' (groupPacker i)\<rparr>))))"

text \<open>
  Modelled from the spec: \<^verbatim>\<open>handleAliasReadCommon\<close>, which is not in the source
  file. It answers with the alias's fields, or with no response at all (\<open>None\<close>, not
  found) when there is no alias (4.2).
\<close>

definition handleAliasReadCommon :: "Alias option \<Rightarrow> error + Alias option" where
  "handleAliasReadCommon a = Inr a"

subsection \<open>The handlers\<close>

text \<open>
  \<^verbatim>\<open>handleGroupAliasUpdateCommon\<close>, lines 115 to 251, in three parts.

  \<open>bindAliasToGroup\<close> is lines 163 to 213: the create branch and the update
  branch, which decide the group that holds the alias, the previous group of a transfer
  and the warnings. The group holds the alias object, and the object gets its fields and
  its id only afterwards (lines 224 to 230), so the group is given as a function of the
  alias it holds. Line 177 assigns the alias to the group's alias field, where line 203
  appends it.
\<close>

definition bindAliasToGroup ::
  "IdentityStore \<Rightarrow> bool \<Rightarrow> Alias \<Rightarrow> Group option \<Rightarrow> Alias option
     \<Rightarrow> error + ((Alias \<Rightarrow> Group) \<times> Group option \<times> formatted list)" where
  "bindAliasToGroup i newGroupAlias groupAlias grp groupAliasByFactors =
    (if newGroupAlias then
       (if groupAliasByFactors \<noteq> None then
          Inl (ErrorResponse ''combination of mount and group alias name is already in use'')
        else case grp of
          None \<Rightarrow> Inr (\<lambda>a. \<lparr>group_ID = [], group_Alias = [a]\<rparr>, None, [])
        | Some g \<Rightarrow> Inr (\<lambda>a. g\<lparr>group_Alias := [a]\<rparr>, None, []))
     else
       (if (case groupAliasByFactors of
              None \<Rightarrow> False
            | Some b \<Rightarrow> alias_ID b \<noteq> alias_ID groupAlias) then
          Inl (ErrorResponse ''combination of mount and group alias name is already in use'')
        else case memDBGroupByAliasID i (alias_ID groupAlias) of
          None \<Rightarrow> Inl (Err ''group alias is not associated with a group'')
        | Some existingGroup \<Rightarrow>
            (let inPlace =
                   (\<lambda>a. updateAliasInGroup existingGroup (alias_ID groupAlias) a, None, [])
             in case grp of
               None \<Rightarrow> Inr inPlace
             | Some g \<Rightarrow>
                 (if group_ID g \<noteq> group_ID existingGroup then
                    Inr (\<lambda>a. g\<lparr>group_Alias := group_Alias g @ [a]\<rparr>,
                         Some (deleteAliasFromGroup existingGroup groupAlias),
                         [Sprintf ''group alias is being transferred from group %q to %q''
                            [group_ID existingGroup, group_ID g]])
                  else Inr inPlace))))"

text \<open>
  \<open>persistGroupAlias\<close> is lines 215 to 250, common to both branches:
  \<^verbatim>\<open>sanitizeGroup\<close>, the assignment of the alias's fields,
  \<^verbatim>\<open>sanitizeGroupAlias\<close>, \<^verbatim>\<open>upsertGroup\<close> and the response.
\<close>

definition persistGroupAlias ::
  "IdentityStore \<Rightarrow> Alias \<Rightarrow> string \<Rightarrow> MountValidationResp \<Rightarrow> (Alias \<Rightarrow> Group)
     \<Rightarrow> Group option \<Rightarrow> formatted list \<Rightarrow> (error + Response) \<times> IdentityStore" where
  "persistGroupAlias i groupAlias groupAliasName mountValidationResp groupOf previousGroup warnings =
    (let (g1, i1) = sanitizeGroup i (groupOf groupAlias);
         (a2, i2) = sanitizeGroupAlias i1
            (groupAlias\<lparr>alias_Name := groupAliasName,
                        alias_MountType := mvr_MountType mountValidationResp,
                        alias_MountAccessor := mvr_MountAccessor mountValidationResp,
                        alias_GroupID := group_ID g1\<rparr>);
         i3 = upsertGroup i2 ((groupOf a2)\<lparr>group_ID := group_ID g1\<rparr>) previousGroup True
     in (Inr \<lparr>Data_id = alias_ID a2, Data_group_id = group_ID g1, Warnings = warnings\<rparr>, i3))"

text \<open>\<^verbatim>\<open>&identity.Alias{}\<close> of line 124: every field has its zero value.\<close>

definition emptyAlias :: Alias where
  "emptyAlias = \<lparr>alias_ID = [], alias_Name = [], alias_MountType = [],
                 alias_MountAccessor = [], alias_GroupID = []\<rparr>"

text \<open>
  The handler itself: \<open>groupAliasArg\<close> is \<open>None\<close> for a new alias. The checks come
  in the source's order: group id (lines 128 to 138), name (140 to 144), mount accessor
  (146 to 154), then the lookup by factors (156).
\<close>

definition handleGroupAliasUpdateCommon ::
  "IdentityStore \<Rightarrow> FieldData \<Rightarrow> Alias option \<Rightarrow> (error + Response) \<times> IdentityStore" where
  "handleGroupAliasUpdateCommon i d groupAliasArg =
    (let newGroupAlias = (groupAliasArg = None);
         groupAlias = (case groupAliasArg of None \<Rightarrow> emptyAlias | Some a \<Rightarrow> a);
         groupID = Get d ''group_id'';
         grp = (if groupID \<noteq> [] then memDBGroupByID i groupID else None)
     in
     if groupID \<noteq> [] \<and> grp = None then (Inl (ErrorResponse ''invalid group ID''), i)
     else let groupAliasName = Get d ''name'' in
     if groupAliasName = [] then (Inl (ErrorResponse ''missing alias name''), i)
     else let mountAccessor = Get d ''mount_accessor'' in
     if mountAccessor = [] then (Inl (ErrorResponse ''missing mount_accessor''), i)
     else case validateMountAccessorFunc i mountAccessor of
       None \<Rightarrow> (Inl (ErrorResponseFmt (Sprintf ''invalid mount accessor %q'' [mountAccessor])), i)
     | Some mountValidationResp \<Rightarrow>
         (case bindAliasToGroup i newGroupAlias groupAlias grp
                 (memDBGroupAliasByFactors i (mvr_MountAccessor mountValidationResp)
                    groupAliasName) of
            Inl e \<Rightarrow> (Inl e, i)
          | Inr (groupOf, previousGroup, warnings) \<Rightarrow>
              persistGroupAlias i groupAlias groupAliasName mountValidationResp
                groupOf previousGroup warnings))"

text \<open>
  \<^verbatim>\<open>pathGroupAliasIDUpdate\<close>, lines 95 to 113. Line 104 looks the alias up under
  the identifier \<^verbatim>\<open>groupID\<close>, which the function does not bind, and not under
  \<^verbatim>\<open>groupAliasID\<close>; its value is the first argument here.
\<close>

definition pathGroupAliasIDUpdate ::
  "string \<Rightarrow> IdentityStore \<Rightarrow> FieldData \<Rightarrow> (error + Response) \<times> IdentityStore" where
  "pathGroupAliasIDUpdate groupID i d =
    (let groupAliasID = Get d ''id'' in
     if groupAliasID = [] then (Inl (ErrorResponse ''empty group alias ID''), i)
     else case memDBGroupAliasByID i groupID of
       None \<Rightarrow> (Inl (ErrorResponse ''invalid group alias ID''), i)
     | Some groupAlias \<Rightarrow> handleGroupAliasUpdateCommon i d (Some groupAlias))"

text \<open>\<^verbatim>\<open>pathGroupAliasRegister\<close>, lines 83 to 93.\<close>

definition pathGroupAliasRegister ::
  "string \<Rightarrow> IdentityStore \<Rightarrow> FieldData \<Rightarrow> (error + Response) \<times> IdentityStore" where
  "pathGroupAliasRegister groupID i d =
    (if GetOk d ''id'' then pathGroupAliasIDUpdate groupID i d
     else handleGroupAliasUpdateCommon i d None)"

text \<open>\<^verbatim>\<open>pathGroupAliasIDRead\<close>, lines 255 to 267.\<close>

definition pathGroupAliasIDRead :: "IdentityStore \<Rightarrow> FieldData \<Rightarrow> error + Alias option" where
  "pathGroupAliasIDRead i d =
    (let groupAliasID = Get d ''id'' in
     if groupAliasID = [] then Inl (ErrorResponse ''empty group alias id'')
     else handleAliasReadCommon (memDBGroupAliasByID i groupAliasID))"

text \<open>
  \<^verbatim>\<open>pathAliasIDDelete\<close>, lines 270 to 277: the response is nil and the error is
  what \<^verbatim>\<open>deleteGroupAlias\<close> returns.
\<close>

definition pathAliasIDDelete :: "IdentityStore \<Rightarrow> FieldData \<Rightarrow> (error + unit) \<times> IdentityStore" where
  "pathAliasIDDelete i d =
    (let groupAliasID = Get d ''id'' in
     if groupAliasID = [] then (Inl (ErrorResponse ''missing group alias ID''), i)
     else case deleteGroupAlias i groupAliasID of
       (None, i') \<Rightarrow> (Inr (), i')
     | (Some e, i') \<Rightarrow> (Inl (Err e), i'))"

subsection \<open>Example stores\<close>

text \<open>
  One mount is known to the validator. \<open>aliceStore\<close> is the store after the alias
  \<^verbatim>\<open>alice\<close> has been registered on the empty store without a group id.
\<close>

definition exampleMounts :: "string \<Rightarrow> MountValidationResp option" where
  "exampleMounts a =
     (if a = ''auth_userpass_1234''
      then Some \<lparr>mvr_MountAccessor = ''auth_userpass_1234'', mvr_MountType = ''userpass''\<rparr>
      else None)"

definition emptyStore :: IdentityStore where
  "emptyStore = \<lparr>groupAliases = [], groups = [], groupPacker = [],
                 validateMountAccessorFunc = exampleMounts, uuidCounter = 0\<rparr>"

definition alice :: Alias where
  "alice = \<lparr>alias_ID = ''uuid-i'', alias_Name = ''alice'', alias_MountType = ''userpass'',
            alias_MountAccessor = ''auth_userpass_1234'', alias_GroupID = ''uuid-''\<rparr>"

definition aliceStore :: IdentityStore where
  "aliceStore = \<lparr>groupAliases = [alice],
                 groups = [\<lparr>group_ID = ''uuid-'', group_Alias = [alice]\<rparr>],
                 groupPacker = [\<lparr>group_ID = ''uuid-'', group_Alias = [alice]\<rparr>],
                 validateMountAccessorFunc = exampleMounts, uuidCounter = 2\<rparr>"

definition bob :: Alias where
  "bob = \<lparr>alias_ID = ''uuid-ii'', alias_Name = ''bob'', alias_MountType = ''userpass'',
          alias_MountAccessor = ''auth_userpass_1234'', alias_GroupID = ''uuid-''\<rparr>"

definition dave :: Alias where
  "dave = \<lparr>alias_ID = ''uuid-iii'', alias_Name = ''dave'', alias_MountType = ''userpass'',
           alias_MountAccessor = ''auth_userpass_1234'', alias_GroupID = ''uuid-ii''\<rparr>"

text \<open>
  \<open>twoGroupStore\<close> is \<open>aliceStore\<close> after the alias \<^verbatim>\<open>dave\<close> has been registered
  without a group id: two groups, each holding one alias.
\<close>

definition twoGroupStore :: IdentityStore where
  "twoGroupStore = \<lparr>groupAliases = [alice, dave],
                    groups = [\<lparr>group_ID = ''uuid-'', group_Alias = [alice]\<rparr>,
                              \<lparr>group_ID = ''uuid-ii'', group_Alias = [dave]\<rparr>],
                    groupPacker = [\<lparr>group_ID = ''uuid-'', group_Alias = [alice]\<rparr>,
                                   \<lparr>group_ID = ''uuid-ii'', group_Alias = [dave]\<rparr>],
                    validateMountAccessorFunc = exampleMounts, uuidCounter = 4\<rparr>"

subsection \<open>Sequences of requests and the invariant of the index\<close>

text \<open>
  A run of register requests, each with the value the identifier \<^verbatim>\<open>groupID\<close> of
  line 104 has when it is served; the responses are dropped.
\<close>

fun registerAll :: "IdentityStore \<Rightarrow> (string \<times> FieldData) list \<Rightarrow> IdentityStore" where
  "registerAll i [] = i"
| "registerAll i ((groupID, d) # requests) =
     registerAll (snd (pathGroupAliasRegister groupID i d)) requests"

text \<open>The factors of an alias: its mount accessor and its name.\<close>

definition aliasFactors :: "Alias \<Rightarrow> string \<times> string" where
  "aliasFactors a = (alias_MountAccessor a, alias_Name a)"

text \<open>
  The invariant of the index that the handlers maintain: alias ids, alias factors and
  group ids are unique; every alias id came from the generator; every group has an id
  and holds aliases of the alias table only; no alias id is held by two groups.
\<close>

definition storeInvariant :: "IdentityStore \<Rightarrow> bool" where
  "storeInvariant i \<longleftrightarrow>
     distinct (map alias_ID (groupAliases i)) \<and>
     distinct (map aliasFactors (groupAliases i)) \<and>
     distinct (map group_ID (groups i)) \<and>
     (\<forall>a\<in>set (groupAliases i). alias_ID a \<in> set (map genUUID [0..<uuidCounter i])) \<and>
     (\<forall>g\<in>set (groups i). group_ID g \<noteq> [] \<and> set (group_Alias g) \<subseteq> set (groupAliases i)) \<and>
     (\<forall>g\<in>set (groups i). \<forall>h\<in>set (groups i).
        \<forall>a\<in>set (group_Alias g). \<forall>b\<in>set (group_Alias h). alias_ID a = alias_ID b \<longrightarrow> g = h)"

section \<open>Properties\<close>

lemmas handler_defs =
  pathGroupAliasRegister_def pathGroupAliasIDUpdate_def handleGroupAliasUpdateCommon_def
  bindAliasToGroup_def persistGroupAlias_def emptyAlias_def
  pathGroupAliasIDRead_def pathAliasIDDelete_def deleteGroupAlias_def handleAliasReadCommon_def
  memDBGroupAliasByID_def memDBGroupAliasByFactors_def memDBGroupByID_def memDBGroupByAliasID_def
  upsertGroup_def sanitizeGroup_def sanitizeGroupAlias_def deleteAliasFromGroup_def
  updateAliasInGroup_def genUUID_def Get_def GetOk_def

lemmas example_defs = exampleMounts_def emptyStore_def alice_def aliceStore_def bob_def dave_def
  twoGroupStore_def

lemma aliceStore_reached:
  "pathGroupAliasRegister [] emptyStore [(''name'', ''alice''), (''mount_accessor'', ''auth_userpass_1234'')]
   = (Inr \<lparr>Data_id = ''uuid-i'', Data_group_id = ''uuid-'', Warnings = []\<rparr>, aliceStore)"
  by (simp add: handler_defs example_defs Let_def)


subsection \<open>Lists, tables and identifiers\<close>

text \<open>
  Lookups with \<open>find\<close>, what a table holds after \<open>upsert\<close>, and the identifiers
  of the generator.
\<close>

lemma find_holds: "find P xs = Some a \<Longrightarrow> P a"
  by (auto simp: find_Some_iff)

lemma find_upsert:
  "find (\<lambda>y. key y = k) (upsert key x xs) =
     (if k = key x then Some x else find (\<lambda>y. key y = k) xs)"
  by (induction xs) auto

lemma find_app:
  "find P (xs @ ys) = (case find P xs of None \<Rightarrow> find P ys | Some x \<Rightarrow> Some x)"
  by (induction xs) auto

lemma find_foldl_upsert:
  "find (\<lambda>y. key y = k) (foldl (\<lambda>t a. upsert key a t) T xs) =
     (case find (\<lambda>y. key y = k) (rev xs) of
        Some x \<Rightarrow> Some x
      | None \<Rightarrow> find (\<lambda>y. key y = k) T)"
  by (induction xs arbitrary: T) (auto simp: find_app find_upsert split: option.splits)

lemma find_only:
  "\<exists>x\<in>set xs. P x \<Longrightarrow> \<forall>x\<in>set xs. P x \<longrightarrow> x = a \<Longrightarrow> find P xs = Some a"
  by (induction xs) auto

lemma find_rev_replaced:
  assumes "k \<in> set (map key xs)" and "key a = k"
  shows "find (\<lambda>y. key y = k) (rev (map (\<lambda>x. if key x = k then a else x) xs)) = Some a"
proof (rule find_only)
  from assms show "\<exists>x\<in>set (rev (map (\<lambda>x. if key x = k then a else x) xs)). key x = k"
    by auto
  from assms show "\<forall>x\<in>set (rev (map (\<lambda>x. if key x = k then a else x) xs)). key x = k \<longrightarrow> x = a"
    by auto
qed

lemma set_upsert:
  "distinct (map key xs) \<Longrightarrow> set (upsert key x xs) = insert x {y \<in> set xs. key y \<noteq> key x}"
  by (induction xs) (auto simp: rev_image_eqI)

lemma distinct_upsert:
  "distinct (map key xs) \<Longrightarrow> distinct (map key (upsert key x xs))"
  by (induction xs) (auto simp: set_upsert)

lemma distinct_other_upsert:
  "distinct (map key xs) \<Longrightarrow> distinct (map f xs) \<Longrightarrow>
   \<forall>y\<in>set xs. f y = f x \<longrightarrow> key y = key x \<Longrightarrow> distinct (map f (upsert key x xs))"
proof (induction xs)
  case Nil
  then show ?case by simp
next
  case (Cons y ys)
  show ?case
  proof (cases "key y = key x")
    case True
    have "f x \<notin> f ` set ys"
    proof
      assume "f x \<in> f ` set ys"
      then obtain z where z: "z \<in> set ys" "f z = f x" by auto
      with Cons.prems(3) have "key z = key x" by simp
      with True z Cons.prems(1) show False by (auto simp: rev_image_eqI)
    qed
    with True Cons.prems(2) show ?thesis by simp
  next
    case False
    from Cons.prems(3) False have "f y \<noteq> f x" by auto
    moreover from Cons.prems(1) have "set (upsert key x ys) \<subseteq> insert x (set ys)"
      by (auto simp: set_upsert)
    ultimately have "f y \<notin> f ` set (upsert key x ys)"
      using Cons.prems(2) by auto
    moreover have "distinct (map f (upsert key x ys))"
      using Cons by simp
    ultimately show ?thesis using False by simp
  qed
qed

lemma upsert_member:
  "distinct (map key xs) \<Longrightarrow> x \<in> set xs \<Longrightarrow> upsert key x xs = xs"
  by (induction xs) (auto simp: rev_image_eqI)

lemma foldl_upsert_members:
  "distinct (map key T) \<Longrightarrow> set xs \<subseteq> set T \<Longrightarrow> foldl (\<lambda>t a. upsert key a t) T xs = T"
  by (induction xs) (auto simp: upsert_member)

lemma foldl_upsert_one:
  assumes "distinct (map key T)" and "b \<in> set xs"
    and "\<forall>a\<in>set xs. a = b \<or> (a \<in> set T \<and> key a \<noteq> key b)"
  shows "foldl (\<lambda>t a. upsert key a t) T xs = upsert key b T"
  using assms(2,3)
proof (induction xs)
  case Nil
  then show ?case by simp
next
  case (Cons x xs)
  show ?case
  proof (cases "x = b")
    case True
    have "set xs \<subseteq> set (upsert key b T)"
      using Cons.prems(2) assms(1) by (auto simp: set_upsert)
    with assms(1) have "foldl (\<lambda>t a. upsert key a t) (upsert key b T) xs = upsert key b T"
      by (simp add: foldl_upsert_members distinct_upsert)
    with True show ?thesis by simp
  next
    case False
    with Cons.prems have "x \<in> set T" and "b \<in> set xs" by auto
    with assms(1) Cons show ?thesis by (simp add: upsert_member)
  qed
qed


lemma genUUID_not_empty: "genUUID n \<noteq> []"
  by (simp add: genUUID_def)

lemma genUUID_inj: "genUUID m = genUUID n \<longleftrightarrow> m = n"
proof
  assume "genUUID m = genUUID n"
  then have "length (genUUID m) = length (genUUID n)" by simp
  then show "m = n" by (simp add: genUUID_def)
qed simp

subsection \<open>Reading and deleting by id\<close>

text \<open>
  C9. Reading with an empty id fails with the error \<^verbatim>\<open>empty group alias id\<close>. A
  non-empty id that denotes no alias gives the not-found answer (no response), which is
  not that error.
\<close>

theorem read_empty_id_distinct_from_not_found:
  "(Get d ''id'' = [] \<longrightarrow>
      pathGroupAliasIDRead i d = Inl (ErrorResponse ''empty group alias id'')) \<and>
   (Get d ''id'' \<noteq> [] \<and> memDBGroupAliasByID i (Get d ''id'') = None \<longrightarrow>
      pathGroupAliasIDRead i d = Inr None \<and>
      pathGroupAliasIDRead i d \<noteq> Inl (ErrorResponse ''empty group alias id''))"
  by (simp add: pathGroupAliasIDRead_def handleAliasReadCommon_def)

theorem read_empty_id_distinct_from_not_found_witness:
  "Get [] ''id'' = [] \<and>
   pathGroupAliasIDRead aliceStore [] = Inl (ErrorResponse ''empty group alias id'') \<and>
   Get [(''id'', ''uuid-ii'')] ''id'' \<noteq> [] \<and>
   memDBGroupAliasByID aliceStore (Get [(''id'', ''uuid-ii'')] ''id'') = None \<and>
   pathGroupAliasIDRead aliceStore [(''id'', ''uuid-ii'')] = Inr None"
  using read_empty_id_distinct_from_not_found [of "[]" aliceStore]
        read_empty_id_distinct_from_not_found [of "[(''id'', ''uuid-ii'')]" aliceStore]
  by (simp add: Get_def memDBGroupAliasByID_def example_defs)

text \<open>
  C10. Deleting with an empty id is no success: it returns the user error
  \<^verbatim>\<open>missing group alias ID\<close> and the store is unchanged.
\<close>

theorem delete_empty_id_is_user_error:
  "Get d ''id'' = [] \<Longrightarrow>
   pathAliasIDDelete i d = (Inl (ErrorResponse ''missing group alias ID''), i)"
  by (simp add: pathAliasIDDelete_def)

theorem delete_empty_id_is_user_error_witness:
  "Get [(''id'', [])] ''id'' = [] \<and>
   pathAliasIDDelete aliceStore [(''id'', [])]
     = (Inl (ErrorResponse ''missing group alias ID''), aliceStore)"
  using delete_empty_id_is_user_error [of "[(''id'', [])]" aliceStore]
  by (simp add: Get_def)

subsection \<open>Creating an alias in an existing group\<close>

text \<open>
  C2. Evaluation at the failing input: the group \<^verbatim>\<open>uuid-\<close> holds the alias
  \<^verbatim>\<open>alice\<close>; after \<^verbatim>\<open>bob\<close> is created with that group id, the group holds
  \<^verbatim>\<open>bob\<close> alone (line 177 assigns the alias where line 203 appends it).
\<close>

theorem create_in_group_drops_aliases:
  "memDBGroupByID aliceStore ''uuid-'' = Some \<lparr>group_ID = ''uuid-'', group_Alias = [alice]\<rparr> \<and>
   (case bindAliasToGroup aliceStore True emptyAlias
           (Some \<lparr>group_ID = ''uuid-'', group_Alias = [alice]\<rparr>) None of
      Inl e \<Rightarrow> None
    | Inr (groupOf, previousGroup, warnings) \<Rightarrow> Some (groupOf bob))
     = Some \<lparr>group_ID = ''uuid-'', group_Alias = [bob]\<rparr> \<and>
   fst (pathGroupAliasRegister [] aliceStore
     [(''name'', ''bob''), (''mount_accessor'', ''auth_userpass_1234''), (''group_id'', ''uuid-'')])
     = Inr \<lparr>Data_id = ''uuid-ii'', Data_group_id = ''uuid-'', Warnings = []\<rparr> \<and>
   memDBGroupByID (snd (pathGroupAliasRegister [] aliceStore
     [(''name'', ''bob''), (''mount_accessor'', ''auth_userpass_1234''), (''group_id'', ''uuid-'')]))
     ''uuid-'' = Some \<lparr>group_ID = ''uuid-'', group_Alias = [bob]\<rparr>"
  by (simp add: handler_defs example_defs Let_def eval_nat_numeral)

subsection \<open>Deleting twice\<close>

lemma deleteGroupAlias_cases:
  "deleteGroupAlias i k = (None, i') \<Longrightarrow> memDBGroupAliasByID i' k = None"
  unfolding deleteGroupAlias_def memDBGroupAliasByID_def
  by (auto split: option.splits simp: Let_def find_None_iff dest: find_holds)

lemma deleteGroupAlias_absent:
  "memDBGroupAliasByID i k = None \<Longrightarrow> deleteGroupAlias i k = (None, i)"
  by (simp add: deleteGroupAlias_def)

lemma deleteGroupAlias_owned:
  "memDBGroupAliasByID i k = Some a \<Longrightarrow> memDBGroupByAliasID i (alias_ID a) = Some g \<Longrightarrow>
   fst (deleteGroupAlias i k) = None"
  by (simp add: deleteGroupAlias_def Let_def)

text \<open>
  C7, as the claim states it, fails: the empty id denotes no alias, and deleting it is
  not a success but the user error \<^verbatim>\<open>missing group alias ID\<close>.
\<close>

theorem delete_empty_id_counterexample:
  "memDBGroupAliasByID aliceStore (Get [] ''id'') = None \<and>
   pathAliasIDDelete aliceStore []
     = (Inl (ErrorResponse ''missing group alias ID''), aliceStore)"
  by (simp add: pathAliasIDDelete_def Get_def memDBGroupAliasByID_def example_defs)

text \<open>
  C7, amended. For a non-empty id: if the id denotes no alias, deleting it succeeds and
  changes nothing; if it denotes an alias that has an owning group, deleting it succeeds;
  and whenever a delete succeeds, deleting the same id again succeeds too and leaves the
  store as the first delete left it.
\<close>

theorem delete_idempotent:
  assumes "Get d ''id'' \<noteq> []"
  shows "(memDBGroupAliasByID i (Get d ''id'') = None \<longrightarrow> pathAliasIDDelete i d = (Inr (), i)) \<and>
         ((\<exists>a g. memDBGroupAliasByID i (Get d ''id'') = Some a \<and>
                 memDBGroupByAliasID i (alias_ID a) = Some g) \<longrightarrow>
            fst (pathAliasIDDelete i d) = Inr ()) \<and>
         (fst (pathAliasIDDelete i d) = Inr () \<longrightarrow>
            pathAliasIDDelete (snd (pathAliasIDDelete i d)) d
              = (Inr (), snd (pathAliasIDDelete i d)))"
proof (intro conjI impI)
  assume "memDBGroupAliasByID i (Get d ''id'') = None"
  then show "pathAliasIDDelete i d = (Inr (), i)"
    using assms by (simp add: pathAliasIDDelete_def deleteGroupAlias_absent)
next
  assume "\<exists>a g. memDBGroupAliasByID i (Get d ''id'') = Some a \<and>
                 memDBGroupByAliasID i (alias_ID a) = Some g"
  then obtain a g where "memDBGroupAliasByID i (Get d ''id'') = Some a"
    and "memDBGroupByAliasID i (alias_ID a) = Some g" by blast
  then have "fst (deleteGroupAlias i (Get d ''id'')) = None"
    by (rule deleteGroupAlias_owned)
  then show "fst (pathAliasIDDelete i d) = Inr ()"
    using assms by (cases "deleteGroupAlias i (Get d ''id'')") (simp add: pathAliasIDDelete_def)
next
  assume ok: "fst (pathAliasIDDelete i d) = Inr ()"
  obtain e i' where del: "deleteGroupAlias i (Get d ''id'') = (e, i')"
    by (cases "deleteGroupAlias i (Get d ''id'')")
  with ok assms have e: "e = None"
    by (cases e) (simp_all add: pathAliasIDDelete_def)
  with del assms have first: "pathAliasIDDelete i d = (Inr (), i')"
    by (simp add: pathAliasIDDelete_def)
  from del e have "memDBGroupAliasByID i' (Get d ''id'') = None"
    by (simp add: deleteGroupAlias_cases)
  then have "deleteGroupAlias i' (Get d ''id'') = (None, i')"
    by (rule deleteGroupAlias_absent)
  with assms have "pathAliasIDDelete i' d = (Inr (), i')"
    by (simp add: pathAliasIDDelete_def)
  with first show "pathAliasIDDelete (snd (pathAliasIDDelete i d)) d
              = (Inr (), snd (pathAliasIDDelete i d))" by simp
qed

theorem delete_idempotent_witness:
  "Get [(''id'', ''uuid-i'')] ''id'' \<noteq> [] \<and>
   memDBGroupAliasByID emptyStore (Get [(''id'', ''uuid-i'')] ''id'') = None \<and>
   pathAliasIDDelete emptyStore [(''id'', ''uuid-i'')] = (Inr (), emptyStore) \<and>
   memDBGroupAliasByID aliceStore (Get [(''id'', ''uuid-i'')] ''id'') = Some alice \<and>
   memDBGroupByAliasID aliceStore (alias_ID alice)
     = Some \<lparr>group_ID = ''uuid-'', group_Alias = [alice]\<rparr> \<and>
   fst (pathAliasIDDelete aliceStore [(''id'', ''uuid-i'')]) = Inr () \<and>
   pathAliasIDDelete (snd (pathAliasIDDelete aliceStore [(''id'', ''uuid-i'')])) [(''id'', ''uuid-i'')]
     = (Inr (), snd (pathAliasIDDelete aliceStore [(''id'', ''uuid-i'')]))"
  using delete_idempotent [of "[(''id'', ''uuid-i'')]" emptyStore]
        delete_idempotent [of "[(''id'', ''uuid-i'')]" aliceStore]
  by (simp add: Get_def memDBGroupAliasByID_def memDBGroupByAliasID_def example_defs)

subsection \<open>The common handler\<close>

lemma handle_success:
  assumes "handleGroupAliasUpdateCommon i d arg = (Inr resp, i')"
  obtains mv groupOf prev ws where
    "Get d ''name'' \<noteq> []" and "Get d ''mount_accessor'' \<noteq> []"
    and "validateMountAccessorFunc i (Get d ''mount_accessor'') = Some mv"
    and "Get d ''group_id'' = [] \<or> memDBGroupByID i (Get d ''group_id'') \<noteq> None"
    and "bindAliasToGroup i (arg = None) (case arg of None \<Rightarrow> emptyAlias | Some a \<Rightarrow> a)
           (if Get d ''group_id'' \<noteq> [] then memDBGroupByID i (Get d ''group_id'') else None)
           (memDBGroupAliasByFactors i (mvr_MountAccessor mv) (Get d ''name''))
         = Inr (groupOf, prev, ws)"
    and "persistGroupAlias i (case arg of None \<Rightarrow> emptyAlias | Some a \<Rightarrow> a) (Get d ''name'')
           mv groupOf prev ws = (Inr resp, i')"
  using assms unfolding handleGroupAliasUpdateCommon_def Let_def
  by (auto split: if_splits option.splits sum.splits prod.splits)

lemma persist_unfold:
  "persistGroupAlias i ga name mv groupOf prev ws =
    (let c = uuidCounter i;
         gid = (if group_ID (groupOf ga) = [] then genUUID c else group_ID (groupOf ga));
         c1 = (if group_ID (groupOf ga) = [] then Suc c else c);
         a2 = \<lparr>alias_ID = (if alias_ID ga = [] then genUUID c1 else alias_ID ga),
               alias_Name = name, alias_MountType = mvr_MountType mv,
               alias_MountAccessor = mvr_MountAccessor mv, alias_GroupID = gid\<rparr>;
         c2 = (if alias_ID ga = [] then Suc c1 else c1)
     in (Inr \<lparr>Data_id = alias_ID a2, Data_group_id = gid, Warnings = ws\<rparr>,
         upsertGroup (i\<lparr>uuidCounter := c2\<rparr>) ((groupOf a2)\<lparr>group_ID := gid\<rparr>) prev True))"
  by (cases ga) (simp add: persistGroupAlias_def sanitizeGroup_def sanitizeGroupAlias_def Let_def)

lemma handle_error_unchanged:
  "handleGroupAliasUpdateCommon i d arg = (Inl e, i') \<Longrightarrow> i' = i"
  unfolding handleGroupAliasUpdateCommon_def Let_def
  by (auto simp: persist_unfold Let_def split: if_splits option.splits sum.splits prod.splits)

text \<open>The alias that \<open>persistGroupAlias\<close> stores.\<close>

lemma bind_holds_alias_last:
  assumes "bindAliasToGroup i new ga grp byFactors = Inr (groupOf, prev, ws)"
    and "\<not> new \<Longrightarrow> alias_ID a = alias_ID ga"
  shows "find (\<lambda>y. alias_ID y = alias_ID a) (rev (group_Alias (groupOf a))) = Some a"
  using assms unfolding bindAliasToGroup_def updateAliasInGroup_def memDBGroupByAliasID_def
  by (auto simp: Let_def find_rev_replaced split: if_splits option.splits dest!: find_holds)

lemma handle_round_trip:
  assumes ok: "handleGroupAliasUpdateCommon i d arg = (Inr resp, i')"
    and ids: "\<And>ga. arg = Some ga \<Longrightarrow> alias_ID ga \<noteq> []"
  shows "\<exists>a mv. Data_id resp \<noteq> [] \<and> memDBGroupAliasByID i' (Data_id resp) = Some a \<and>
          alias_Name a = Get d ''name'' \<and>
          validateMountAccessorFunc i (Get d ''mount_accessor'') = Some mv \<and>
          alias_MountAccessor a = mvr_MountAccessor mv"
proof -
  define ga where "ga = (case arg of None \<Rightarrow> emptyAlias | Some a \<Rightarrow> a)"
  from ok obtain mv groupOf prev ws where
    mv: "validateMountAccessorFunc i (Get d ''mount_accessor'') = Some mv"
    and bind: "bindAliasToGroup i (arg = None) ga
           (if Get d ''group_id'' \<noteq> [] then memDBGroupByID i (Get d ''group_id'') else None)
           (memDBGroupAliasByFactors i (mvr_MountAccessor mv) (Get d ''name''))
         = Inr (groupOf, prev, ws)"
    and persist: "persistGroupAlias i ga (Get d ''name'') mv groupOf prev ws = (Inr resp, i')"
    unfolding ga_def by (rule handle_success)
  define gid where
    "gid = (if group_ID (groupOf ga) = [] then genUUID (uuidCounter i) else group_ID (groupOf ga))"
  define c1 where "c1 = (if group_ID (groupOf ga) = [] then Suc (uuidCounter i) else uuidCounter i)"
  define a2 where
    "a2 = \<lparr>alias_ID = (if alias_ID ga = [] then genUUID c1 else alias_ID ga),
           alias_Name = Get d ''name'', alias_MountType = mvr_MountType mv,
           alias_MountAccessor = mvr_MountAccessor mv, alias_GroupID = gid\<rparr>"
  from persist have resp: "Data_id resp = alias_ID a2"
    and aliases: "groupAliases i' =
       foldl (\<lambda>t a. upsert alias_ID a t) (groupAliases i) (group_Alias (groupOf a2))"
    by (auto simp: persist_unfold Let_def upsertGroup_def a2_def gid_def c1_def)
  have keep: "\<not> arg = None \<Longrightarrow> alias_ID a2 = alias_ID ga"
    using ids by (cases arg) (auto simp: a2_def ga_def)
  have "find (\<lambda>y. alias_ID y = alias_ID a2) (rev (group_Alias (groupOf a2))) = Some a2"
    using bind keep by (rule bind_holds_alias_last)
  then have "memDBGroupAliasByID i' (alias_ID a2) = Some a2"
    by (simp add: memDBGroupAliasByID_def aliases find_foldl_upsert)
  moreover have "alias_ID a2 \<noteq> []"
    by (simp add: a2_def genUUID_not_empty)
  moreover have "alias_Name a2 = Get d ''name''" "alias_MountAccessor a2 = mvr_MountAccessor mv"
    by (simp_all add: a2_def)
  ultimately show ?thesis using resp mv by auto
qed


lemma create_result:
  assumes ok: "handleGroupAliasUpdateCommon i d None = (Inr resp, i')"
  obtains mv a k gid where
    "validateMountAccessorFunc i (Get d ''mount_accessor'') = Some mv"
    and "memDBGroupAliasByFactors i (mvr_MountAccessor mv) (Get d ''name'') = None"
    and "a = \<lparr>alias_ID = genUUID k, alias_Name = Get d ''name'',
               alias_MountType = mvr_MountType mv,
               alias_MountAccessor = mvr_MountAccessor mv, alias_GroupID = gid\<rparr>"
    and "uuidCounter i \<le> k" and "uuidCounter i' = Suc k" and "gid \<noteq> []"
    and "Data_id resp = genUUID k" and "Data_group_id resp = gid"
    and "groupAliases i' = upsert alias_ID a (groupAliases i)"
    and "groups i' = upsert group_ID \<lparr>group_ID = gid, group_Alias = [a]\<rparr> (groups i)"
proof -
  from ok obtain mv groupOf prev ws where
    mv: "validateMountAccessorFunc i (Get d ''mount_accessor'') = Some mv"
    and resolves: "Get d ''group_id'' = [] \<or> memDBGroupByID i (Get d ''group_id'') \<noteq> None"
    and bind: "bindAliasToGroup i True emptyAlias
           (if Get d ''group_id'' \<noteq> [] then memDBGroupByID i (Get d ''group_id'') else None)
           (memDBGroupAliasByFactors i (mvr_MountAccessor mv) (Get d ''name''))
         = Inr (groupOf, prev, ws)"
    and persist: "persistGroupAlias i emptyAlias (Get d ''name'') mv groupOf prev ws = (Inr resp, i')"
    by (rule handle_success) simp_all
  from bind have nomatch: "memDBGroupAliasByFactors i (mvr_MountAccessor mv) (Get d ''name'') = None"
    and prev: "prev = None"
    by (auto simp: bindAliasToGroup_def split: if_splits option.splits)
  define gid where "gid = (if Get d ''group_id'' = [] then genUUID (uuidCounter i) else Get d ''group_id'')"
  define k where "k = (if Get d ''group_id'' = [] then Suc (uuidCounter i) else uuidCounter i)"
  define a where
    "a = \<lparr>alias_ID = genUUID k, alias_Name = Get d ''name'', alias_MountType = mvr_MountType mv,
          alias_MountAccessor = mvr_MountAccessor mv, alias_GroupID = gid\<rparr>"
  have shape: "groupOf = (\<lambda>x. \<lparr>group_ID = (if Get d ''group_id'' = [] then [] else Get d ''group_id''),
                                group_Alias = [x]\<rparr>)"
  proof (cases "Get d ''group_id'' = []")
    case True
    with bind nomatch show ?thesis by (simp add: bindAliasToGroup_def)
  next
    case False
    with resolves obtain g where g: "memDBGroupByID i (Get d ''group_id'') = Some g" by auto
    then have "group_ID g = Get d ''group_id''"
      by (auto simp: memDBGroupByID_def dest: find_holds)
    then have "g\<lparr>group_Alias := [x]\<rparr> = \<lparr>group_ID = Get d ''group_id'', group_Alias = [x]\<rparr>" for x
      by (cases g) simp
    with bind nomatch g False show ?thesis by (simp add: bindAliasToGroup_def)
  qed
  from persist have "groupAliases i' = upsert alias_ID a (groupAliases i)"
    and "groups i' = upsert group_ID \<lparr>group_ID = gid, group_Alias = [a]\<rparr> (groups i)"
    and "uuidCounter i' = Suc k"
    and "Data_id resp = genUUID k" and "Data_group_id resp = gid"
    by (auto simp: persist_unfold Let_def upsertGroup_def shape prev emptyAlias_def a_def gid_def
        k_def split: if_splits)
  moreover have "gid \<noteq> []"
    by (simp add: gid_def genUUID_not_empty)
  moreover have "uuidCounter i \<le> k"
    by (simp add: k_def)
  ultimately show ?thesis using mv nomatch a_def by (intro that [of mv a k gid]) simp_all
qed

text \<open>
  The branches of an update that succeeds: in place or transfer.
\<close>

lemma bind_update_cases:
  assumes "bindAliasToGroup i False ga grp byFactors = Inr (groupOf, prev, ws)"
  obtains E where "memDBGroupByAliasID i (alias_ID ga) = Some E"
    and "\<forall>b. byFactors = Some b \<longrightarrow> alias_ID b = alias_ID ga"
    and "(groupOf = (\<lambda>x. updateAliasInGroup E (alias_ID ga) x) \<and> prev = None) \<or>
         (\<exists>g. grp = Some g \<and> group_ID g \<noteq> group_ID E \<and>
              groupOf = (\<lambda>x. g\<lparr>group_Alias := group_Alias g @ [x]\<rparr>) \<and>
              prev = Some (deleteAliasFromGroup E ga))"
proof (cases "memDBGroupByAliasID i (alias_ID ga)")
  case None
  with assms show ?thesis
    by (cases byFactors) (simp_all add: bindAliasToGroup_def split: if_splits)
next
  case (Some E)
  from assms Some have 1: "\<forall>b. byFactors = Some b \<longrightarrow> alias_ID b = alias_ID ga"
    by (cases byFactors) (simp_all add: bindAliasToGroup_def split: if_splits)
  from assms Some have 2: "(groupOf = (\<lambda>x. updateAliasInGroup E (alias_ID ga) x) \<and> prev = None) \<or>
         (\<exists>g. grp = Some g \<and> group_ID g \<noteq> group_ID E \<and>
              groupOf = (\<lambda>x. g\<lparr>group_Alias := group_Alias g @ [x]\<rparr>) \<and>
              prev = Some (deleteAliasFromGroup E ga))"
    by (cases byFactors; cases grp) (simp_all add: bindAliasToGroup_def Let_def split: if_splits)
  from Some 1 2 show ?thesis by (rule that)
qed

subsection \<open>Round trip\<close>

text \<open>
  C8. In a store whose aliases all have an id, a register request that succeeds returns an
  id under which reading finds an alias with the name of the request and with the mount
  accessor the validator resolved for the request.
\<close>

theorem register_read_round_trip:
  assumes ids: "\<forall>a\<in>set (groupAliases i). alias_ID a \<noteq> []"
    and ok: "pathGroupAliasRegister groupID i d = (Inr resp, i')"
  shows "\<exists>view mv.
           pathGroupAliasIDRead i' [(''id'', Data_id resp)] = Inr (Some view) \<and>
           alias_Name view = Get d ''name'' \<and>
           validateMountAccessorFunc i (Get d ''mount_accessor'') = Some mv \<and>
           alias_MountAccessor view = mvr_MountAccessor mv"
proof -
  from ok obtain arg where
    handled: "handleGroupAliasUpdateCommon i d arg = (Inr resp, i')"
    and arg: "arg = None \<or> (\<exists>ga. arg = Some ga \<and> memDBGroupAliasByID i groupID = Some ga)"
    unfolding pathGroupAliasRegister_def pathGroupAliasIDUpdate_def Let_def
    by (auto split: if_splits option.splits)
  have "alias_ID ga \<noteq> []" if "arg = Some ga" for ga
  proof -
    from arg that have "memDBGroupAliasByID i groupID = Some ga" by auto
    then have "ga \<in> set (groupAliases i)"
      by (auto simp: memDBGroupAliasByID_def find_Some_iff)
    with ids show ?thesis by blast
  qed
  with handled obtain a mv where "Data_id resp \<noteq> []"
    and "memDBGroupAliasByID i' (Data_id resp) = Some a"
    and "alias_Name a = Get d ''name''"
    and "validateMountAccessorFunc i (Get d ''mount_accessor'') = Some mv"
    and "alias_MountAccessor a = mvr_MountAccessor mv"
    using handle_round_trip [of i d arg resp i'] by blast
  then show ?thesis
    by (auto simp: pathGroupAliasIDRead_def handleAliasReadCommon_def Get_def)
qed

theorem register_read_round_trip_witness:
  "pathGroupAliasRegister [] emptyStore
      [(''name'', ''alice''), (''mount_accessor'', ''auth_userpass_1234'')]
     = (Inr \<lparr>Data_id = ''uuid-i'', Data_group_id = ''uuid-'', Warnings = []\<rparr>, aliceStore) \<and>
   pathGroupAliasIDRead aliceStore [(''id'', ''uuid-i'')] = Inr (Some alice) \<and>
   alias_Name alice = ''alice'' \<and>
   validateMountAccessorFunc emptyStore ''auth_userpass_1234''
     = Some \<lparr>mvr_MountAccessor = ''auth_userpass_1234'', mvr_MountType = ''userpass''\<rparr> \<and>
   alias_MountAccessor alice = ''auth_userpass_1234''"
  using register_read_round_trip [of emptyStore "[]"
      "[(''name'', ''alice''), (''mount_accessor'', ''auth_userpass_1234'')]"
      "\<lparr>Data_id = ''uuid-i'', Data_group_id = ''uuid-'', Warnings = []\<rparr>" aliceStore]
    aliceStore_reached
  by (simp add: pathGroupAliasIDRead_def handleAliasReadCommon_def memDBGroupAliasByID_def
      Get_def example_defs)

subsection \<open>The invariant of the index\<close>

text \<open>
  Every register request keeps \<open>storeInvariant\<close>, whatever the identifier
  \<^verbatim>\<open>groupID\<close> of line 104 holds: a create adds an alias with a fresh id and factors
  that no alias of the index has; an update replaces the alias it was handed, under the
  same id.
\<close>

lemma invariant_parts:
  assumes "storeInvariant i"
  shows "distinct (map alias_ID (groupAliases i))"
    and "distinct (map aliasFactors (groupAliases i))"
    and "distinct (map group_ID (groups i))"
    and "\<forall>a\<in>set (groupAliases i). \<exists>n<uuidCounter i. alias_ID a = genUUID n"
    and "\<forall>g\<in>set (groups i). group_ID g \<noteq> [] \<and> set (group_Alias g) \<subseteq> set (groupAliases i)"
    and "\<forall>g\<in>set (groups i). \<forall>h\<in>set (groups i).
           \<forall>a\<in>set (group_Alias g). \<forall>b\<in>set (group_Alias h). alias_ID a = alias_ID b \<longrightarrow> g = h"
proof -
  from assms show "distinct (map alias_ID (groupAliases i))"
    and "distinct (map aliasFactors (groupAliases i))"
    and "distinct (map group_ID (groups i))"
    and "\<forall>g\<in>set (groups i). group_ID g \<noteq> [] \<and> set (group_Alias g) \<subseteq> set (groupAliases i)"
    and "\<forall>g\<in>set (groups i). \<forall>h\<in>set (groups i).
           \<forall>a\<in>set (group_Alias g). \<forall>b\<in>set (group_Alias h). alias_ID a = alias_ID b \<longrightarrow> g = h"
    unfolding storeInvariant_def by blast+
  from assms have "\<forall>a\<in>set (groupAliases i). alias_ID a \<in> set (map genUUID [0..<uuidCounter i])"
    unfolding storeInvariant_def by blast
  then show "\<forall>a\<in>set (groupAliases i). \<exists>n<uuidCounter i. alias_ID a = genUUID n"
    by fastforce
qed

lemma invariant_after_create:
  assumes inv: "storeInvariant i"
    and fresh: "alias_ID a = genUUID k" "uuidCounter i \<le> k" "k < uuidCounter i'"
    and nofactor: "\<forall>y\<in>set (groupAliases i). aliasFactors y \<noteq> aliasFactors a"
    and gid: "gid \<noteq> []"
    and AT: "groupAliases i' = upsert alias_ID a (groupAliases i)"
    and GT: "groups i' = upsert group_ID \<lparr>group_ID = gid, group_Alias = [a]\<rparr> (groups i)"
  shows "storeInvariant i'"
proof -
  note p = invariant_parts [OF inv]
  have notin: "\<forall>y\<in>set (groupAliases i). alias_ID y \<noteq> alias_ID a"
    using p(4) fresh by (auto simp: genUUID_inj)
  have setA: "set (groupAliases i') = insert a (set (groupAliases i))"
    using notin by (auto simp: AT set_upsert [OF p(1)])
  have setG: "set (groups i') =
      insert \<lparr>group_ID = gid, group_Alias = [a]\<rparr> {h \<in> set (groups i). group_ID h \<noteq> gid}"
    by (simp add: GT set_upsert [OF p(3)])
  have 1: "distinct (map alias_ID (groupAliases i'))"
    by (simp add: AT distinct_upsert p(1))
  have 2: "distinct (map aliasFactors (groupAliases i'))"
    unfolding AT using p(1) p(2) nofactor by (intro distinct_other_upsert) auto
  have 3: "distinct (map group_ID (groups i'))"
    by (simp add: GT distinct_upsert p(3))
  have 4: "\<forall>x\<in>set (groupAliases i'). alias_ID x \<in> set (map genUUID [0..<uuidCounter i'])"
  proof
    fix x assume "x \<in> set (groupAliases i')"
    with setA have "x = a \<or> x \<in> set (groupAliases i)" by auto
    then obtain n where "n < uuidCounter i'" "alias_ID x = genUUID n"
      using p(4) fresh by (metis le_trans less_imp_le_nat not_le)
    then show "alias_ID x \<in> set (map genUUID [0..<uuidCounter i'])" by auto
  qed
  have 5: "\<forall>g\<in>set (groups i'). group_ID g \<noteq> [] \<and> set (group_Alias g) \<subseteq> set (groupAliases i')"
    using setA setG p(5) gid by auto
  have 6: "\<forall>g\<in>set (groups i'). \<forall>h\<in>set (groups i').
      \<forall>x\<in>set (group_Alias g). \<forall>y\<in>set (group_Alias h). alias_ID x = alias_ID y \<longrightarrow> g = h"
  proof (intro ballI impI)
    fix g h x y
    assume g: "g \<in> set (groups i')" and h: "h \<in> set (groups i')"
      and x: "x \<in> set (group_Alias g)" and y: "y \<in> set (group_Alias h)"
      and eq: "alias_ID x = alias_ID y"
    let ?G = "\<lparr>group_ID = gid, group_Alias = [a]\<rparr>"
    from g setG have g': "g = ?G \<or> g \<in> set (groups i)" by auto
    from h setG have h': "h = ?G \<or> h \<in> set (groups i)" by auto
    have old: "z \<in> set (group_Alias k) \<Longrightarrow> k \<in> set (groups i) \<Longrightarrow> alias_ID z \<noteq> alias_ID a" for z k
      using p(5) notin by blast
    from g' h' show "g = h"
    proof (elim disjE)
      assume "g = ?G" "h = ?G" then show ?thesis by simp
    next
      assume "g = ?G" "h \<in> set (groups i)"
      with x y eq old show ?thesis by auto
    next
      assume "g \<in> set (groups i)" "h = ?G"
      with x y eq old show ?thesis by auto
    next
      assume "g \<in> set (groups i)" "h \<in> set (groups i)"
      with x y eq p(6) show ?thesis by blast
    qed
  qed
  from 1 2 3 4 5 6 show ?thesis unfolding storeInvariant_def by blast
qed

text \<open>What an update of an existing alias keeps of the alias table.\<close>

lemma invariant_alias_table_after_update:
  assumes inv: "storeInvariant i"
    and ga: "ga \<in> set (groupAliases i)"
    and same: "alias_ID a = alias_ID ga"
    and factor: "\<forall>y\<in>set (groupAliases i). aliasFactors y = aliasFactors a \<longrightarrow> alias_ID y = alias_ID ga"
    and AT: "groupAliases i' = upsert alias_ID a (groupAliases i)"
    and C: "uuidCounter i' = uuidCounter i"
  shows "set (groupAliases i') = insert a {y \<in> set (groupAliases i). alias_ID y \<noteq> alias_ID ga}"
    and "distinct (map alias_ID (groupAliases i'))"
    and "distinct (map aliasFactors (groupAliases i'))"
    and "\<forall>x\<in>set (groupAliases i'). alias_ID x \<in> set (map genUUID [0..<uuidCounter i'])"
proof -
  note p = invariant_parts [OF inv]
  show setA: "set (groupAliases i') = insert a {y \<in> set (groupAliases i). alias_ID y \<noteq> alias_ID ga}"
    by (simp add: AT set_upsert [OF p(1)] same)
  show "distinct (map alias_ID (groupAliases i'))"
    by (simp add: AT distinct_upsert p(1))
  show "distinct (map aliasFactors (groupAliases i'))"
    unfolding AT using p(1) p(2) factor same by (intro distinct_other_upsert) auto
  show "\<forall>x\<in>set (groupAliases i'). alias_ID x \<in> set (map genUUID [0..<uuidCounter i'])"
  proof
    fix x assume "x \<in> set (groupAliases i')"
    with setA have "x = a \<or> x \<in> set (groupAliases i)" by auto
    with same ga have "\<exists>y\<in>set (groupAliases i). alias_ID x = alias_ID y" by auto
    then obtain n where "n < uuidCounter i" "alias_ID x = genUUID n"
      using p(4) by force
    then show "alias_ID x \<in> set (map genUUID [0..<uuidCounter i'])" using C by auto
  qed
qed

lemma invariant_after_update_in_place:
  assumes inv: "storeInvariant i"
    and ga: "ga \<in> set (groupAliases i)"
    and E: "E \<in> set (groups i)" "alias_ID ga \<in> set (map alias_ID (group_Alias E))"
    and same: "alias_ID a = alias_ID ga"
    and factor: "\<forall>y\<in>set (groupAliases i). aliasFactors y = aliasFactors a \<longrightarrow> alias_ID y = alias_ID ga"
    and AT: "groupAliases i' = upsert alias_ID a (groupAliases i)"
    and GT: "groups i' = upsert group_ID (updateAliasInGroup E (alias_ID ga) a) (groups i)"
    and C: "uuidCounter i' = uuidCounter i"
  shows "storeInvariant i'"
proof -
  note p = invariant_parts [OF inv]
  note t = invariant_alias_table_after_update [OF inv ga same factor AT C]
  let ?E = "updateAliasInGroup E (alias_ID ga) a"
  have idE: "group_ID ?E = group_ID E"
    by (simp add: updateAliasInGroup_def)
  have aliasesE: "set (group_Alias ?E) \<subseteq>
      insert a {x \<in> set (group_Alias E). alias_ID x \<noteq> alias_ID ga}"
    by (auto simp: updateAliasInGroup_def)
  have setG: "set (groups i') = insert ?E {h \<in> set (groups i). group_ID h \<noteq> group_ID E}"
    by (simp add: GT set_upsert [OF p(3)] idE)
  have others: "alias_ID b \<noteq> alias_ID ga"
    if "h \<in> set (groups i)" "group_ID h \<noteq> group_ID E" "b \<in> set (group_Alias h)" for h b
  proof
    assume "alias_ID b = alias_ID ga"
    with E(2) obtain x where "x \<in> set (group_Alias E)" "alias_ID x = alias_ID b" by auto
    with p(6) E(1) that have "E = h" by blast
    with that show False by simp
  qed
  have 3: "distinct (map group_ID (groups i'))"
    by (simp add: GT distinct_upsert p(3))
  have 5: "\<forall>g\<in>set (groups i'). group_ID g \<noteq> [] \<and> set (group_Alias g) \<subseteq> set (groupAliases i')"
  proof
    fix g assume "g \<in> set (groups i')"
    with setG consider "g = ?E" | "g \<in> set (groups i)" "group_ID g \<noteq> group_ID E" by auto
    then show "group_ID g \<noteq> [] \<and> set (group_Alias g) \<subseteq> set (groupAliases i')"
    proof cases
      case 1
      with aliasesE p(5) E(1) idE show ?thesis unfolding t(1) by auto
    next
      case 2
      with others p(5) show ?thesis unfolding t(1) by auto
    qed
  qed
  have 6: "\<forall>g\<in>set (groups i'). \<forall>h\<in>set (groups i').
      \<forall>x\<in>set (group_Alias g). \<forall>y\<in>set (group_Alias h). alias_ID x = alias_ID y \<longrightarrow> g = h"
  proof (intro ballI impI)
    fix g h x y
    assume g: "g \<in> set (groups i')" and h: "h \<in> set (groups i')"
      and x: "x \<in> set (group_Alias g)" and y: "y \<in> set (group_Alias h)"
      and eq: "alias_ID x = alias_ID y"
    have clash: False
      if "u \<in> set (group_Alias ?E)" "k \<in> set (groups i)" "group_ID k \<noteq> group_ID E"
        "v \<in> set (group_Alias k)" "alias_ID u = alias_ID v" for u k v
    proof -
      from that(1) aliasesE have "u = a \<or> u \<in> set (group_Alias E)" by auto
      then show False
      proof
        assume "u = a"
        with that same others show False by metis
      next
        assume "u \<in> set (group_Alias E)"
        with p(6) E(1) that have "E = k" by blast
        with that show False by simp
      qed
    qed
    from g setG consider "g = ?E" | "g \<in> set (groups i)" "group_ID g \<noteq> group_ID E" by auto
    then show "g = h"
    proof cases
      case 1
      from h setG consider "h = ?E" | "h \<in> set (groups i)" "group_ID h \<noteq> group_ID E" by auto
      then show ?thesis
      proof cases
        case 1 with \<open>g = ?E\<close> show ?thesis by simp
      next
        case 2 with \<open>g = ?E\<close> x y eq clash show ?thesis by metis
      qed
    next
      case 2
      from h setG consider "h = ?E" | "h \<in> set (groups i)" "group_ID h \<noteq> group_ID E" by auto
      then show ?thesis
      proof cases
        case 1 with 2 x y eq clash show ?thesis by metis
      next
        case (2) with \<open>g \<in> set (groups i)\<close> x y eq p(6) show ?thesis by blast
      qed
    qed
  qed
  from t(2) t(3) 3 t(4) 5 6 show ?thesis unfolding storeInvariant_def by blast
qed

lemma invariant_after_transfer:
  assumes inv: "storeInvariant i"
    and ga: "ga \<in> set (groupAliases i)"
    and E: "E \<in> set (groups i)" "alias_ID ga \<in> set (map alias_ID (group_Alias E))"
    and g: "g \<in> set (groups i)" "group_ID g \<noteq> group_ID E"
    and same: "alias_ID a = alias_ID ga"
    and factor: "\<forall>y\<in>set (groupAliases i). aliasFactors y = aliasFactors a \<longrightarrow> alias_ID y = alias_ID ga"
    and AT: "groupAliases i' = upsert alias_ID a (groupAliases i)"
    and GT: "groups i' = upsert group_ID (g\<lparr>group_Alias := group_Alias g @ [a]\<rparr>)
                           (upsert group_ID (deleteAliasFromGroup E ga) (groups i))"
    and C: "uuidCounter i' = uuidCounter i"
  shows "storeInvariant i'"
proof -
  note p = invariant_parts [OF inv]
  note t = invariant_alias_table_after_update [OF inv ga same factor AT C]
  let ?G = "g\<lparr>group_Alias := group_Alias g @ [a]\<rparr>"
  let ?E = "deleteAliasFromGroup E ga"
  have idE: "group_ID ?E = group_ID E" and idG: "group_ID ?G = group_ID g"
    by (simp_all add: deleteAliasFromGroup_def)
  have dE: "distinct (map group_ID (upsert group_ID ?E (groups i)))"
    by (simp add: distinct_upsert p(3))
  have 3: "distinct (map group_ID (groups i'))"
    by (simp add: GT distinct_upsert dE)
  have setG: "set (groups i') \<subseteq>
      insert ?G (insert ?E {h \<in> set (groups i). group_ID h \<noteq> group_ID E \<and> group_ID h \<noteq> group_ID g})"
    by (auto simp: GT set_upsert [OF dE] set_upsert [OF p(3)] idE idG)
  have others: "alias_ID b \<noteq> alias_ID ga"
    if "h \<in> set (groups i)" "group_ID h \<noteq> group_ID E" "b \<in> set (group_Alias h)" for h b
  proof
    assume "alias_ID b = alias_ID ga"
    with E(2) obtain x where "x \<in> set (group_Alias E)" "alias_ID x = alias_ID b" by auto
    with p(6) E(1) that have "E = h" by blast
    with that show False by simp
  qed
  have origin: "\<exists>h\<in>set (groups i). group_ID h' = group_ID h \<and>
      set (group_Alias h') \<subseteq> insert a (set (group_Alias h)) \<and>
      (a \<in> set (group_Alias h') \<longrightarrow> h' = ?G) \<and>
      (\<forall>x\<in>set (group_Alias h'). x \<noteq> a \<longrightarrow> alias_ID x \<noteq> alias_ID ga)"
    if "h' \<in> set (groups i')" for h'
  proof -
    from that setG consider "h' = ?G" | "h' = ?E"
      | "h' \<in> set (groups i)" "group_ID h' \<noteq> group_ID E" "group_ID h' \<noteq> group_ID g"
      by auto
    then show ?thesis
    proof cases
      case 1
      with g others [of g] show ?thesis by (intro bexI [of _ g]) auto
    next
      case 2
      with E(1) same show ?thesis
        by (intro bexI [of _ E]) (auto simp: deleteAliasFromGroup_def)
    next
      case 3
      with others [of h'] same show ?thesis by (intro bexI [of _ h']) auto
    qed
  qed
  have 5: "\<forall>k\<in>set (groups i'). group_ID k \<noteq> [] \<and> set (group_Alias k) \<subseteq> set (groupAliases i')"
  proof
    fix k assume "k \<in> set (groups i')"
    from origin [OF this] obtain h where h: "h \<in> set (groups i)" "group_ID k = group_ID h"
      "set (group_Alias k) \<subseteq> insert a (set (group_Alias h))"
      "\<forall>x\<in>set (group_Alias k). x \<noteq> a \<longrightarrow> alias_ID x \<noteq> alias_ID ga" by blast
    with p(5) show "group_ID k \<noteq> [] \<and> set (group_Alias k) \<subseteq> set (groupAliases i')"
      unfolding t(1) by auto
  qed
  have 6: "\<forall>k\<in>set (groups i'). \<forall>l\<in>set (groups i').
      \<forall>x\<in>set (group_Alias k). \<forall>y\<in>set (group_Alias l). alias_ID x = alias_ID y \<longrightarrow> k = l"
  proof (intro ballI impI)
    fix k l x y
    assume k: "k \<in> set (groups i')" and l: "l \<in> set (groups i')"
      and x: "x \<in> set (group_Alias k)" and y: "y \<in> set (group_Alias l)"
      and eq: "alias_ID x = alias_ID y"
    from origin [OF k] obtain hk where hk: "hk \<in> set (groups i)" "group_ID k = group_ID hk"
      "set (group_Alias k) \<subseteq> insert a (set (group_Alias hk))"
      "a \<in> set (group_Alias k) \<longrightarrow> k = ?G"
      "\<forall>x\<in>set (group_Alias k). x \<noteq> a \<longrightarrow> alias_ID x \<noteq> alias_ID ga" by blast
    from origin [OF l] obtain hl where hl: "hl \<in> set (groups i)" "group_ID l = group_ID hl"
      "set (group_Alias l) \<subseteq> insert a (set (group_Alias hl))"
      "a \<in> set (group_Alias l) \<longrightarrow> l = ?G"
      "\<forall>x\<in>set (group_Alias l). x \<noteq> a \<longrightarrow> alias_ID x \<noteq> alias_ID ga" by blast
    show "k = l"
    proof (cases "x = a \<or> y = a")
      case True
      with x y eq same hk(5) hl(5) have "x = a" "y = a" by metis+
      with x y hk(4) hl(4) show ?thesis by simp
    next
      case False
      with x y hk(3) hl(3) have "x \<in> set (group_Alias hk)" "y \<in> set (group_Alias hl)" by auto
      with p(6) hk(1) hl(1) eq have "hk = hl" by blast
      with hk(2) hl(2) have "group_ID k = group_ID l" by simp
      with 3 k l show ?thesis by (meson distinct_map inj_on_def)
    qed
  qed
  from t(2) t(3) 3 t(4) 5 6 show ?thesis unfolding storeInvariant_def by blast
qed

lemma create_preserves_invariant:
  assumes inv: "storeInvariant i"
    and ok: "handleGroupAliasUpdateCommon i d None = (Inr resp, i')"
  shows "storeInvariant i'"
proof -
  from ok obtain mv a k gid where
    "validateMountAccessorFunc i (Get d ''mount_accessor'') = Some mv"
    and nomatch: "memDBGroupAliasByFactors i (mvr_MountAccessor mv) (Get d ''name'') = None"
    and a: "a = \<lparr>alias_ID = genUUID k, alias_Name = Get d ''name'',
               alias_MountType = mvr_MountType mv,
               alias_MountAccessor = mvr_MountAccessor mv, alias_GroupID = gid\<rparr>"
    and k: "uuidCounter i \<le> k" "uuidCounter i' = Suc k" and gid: "gid \<noteq> []"
    and "Data_id resp = genUUID k" and "Data_group_id resp = gid"
    and AT: "groupAliases i' = upsert alias_ID a (groupAliases i)"
    and GT: "groups i' = upsert group_ID \<lparr>group_ID = gid, group_Alias = [a]\<rparr> (groups i)"
    by (rule create_result)
  have "\<forall>y\<in>set (groupAliases i). aliasFactors y \<noteq> aliasFactors a"
    using nomatch by (auto simp: memDBGroupAliasByFactors_def find_None_iff aliasFactors_def a)
  moreover have "alias_ID a = genUUID k" "k < uuidCounter i'"
    using k by (simp_all add: a)
  ultimately show ?thesis
    using inv k(1) gid AT GT by (intro invariant_after_create [of i a k i' gid]) simp_all
qed

lemma update_effect:
  assumes inv: "storeInvariant i"
    and ga: "ga \<in> set (groupAliases i)"
    and ok: "handleGroupAliasUpdateCommon i d (Some ga) = (Inr resp, i')"
  shows "storeInvariant i' \<and>
         (\<exists>a. alias_ID a = alias_ID ga \<and> alias_Name a = Get d ''name'' \<and>
              groupAliases i' = upsert alias_ID a (groupAliases i))"
proof -
  note p = invariant_parts [OF inv]
  from ok obtain mv groupOf prev ws where
    resolves: "Get d ''group_id'' = [] \<or> memDBGroupByID i (Get d ''group_id'') \<noteq> None"
    and bind: "bindAliasToGroup i False ga
           (if Get d ''group_id'' \<noteq> [] then memDBGroupByID i (Get d ''group_id'') else None)
           (memDBGroupAliasByFactors i (mvr_MountAccessor mv) (Get d ''name''))
         = Inr (groupOf, prev, ws)"
    and persist: "persistGroupAlias i ga (Get d ''name'') mv groupOf prev ws = (Inr resp, i')"
    by (rule handle_success) simp_all
  from bind obtain E where owner: "memDBGroupByAliasID i (alias_ID ga) = Some E"
    and nomatch: "\<forall>b. memDBGroupAliasByFactors i (mvr_MountAccessor mv) (Get d ''name'') = Some b
                    \<longrightarrow> alias_ID b = alias_ID ga"
    and paths: "(groupOf = (\<lambda>x. updateAliasInGroup E (alias_ID ga) x) \<and> prev = None) \<or>
         (\<exists>g. (if Get d ''group_id'' \<noteq> [] then memDBGroupByID i (Get d ''group_id'') else None) = Some g \<and>
              group_ID g \<noteq> group_ID E \<and>
              groupOf = (\<lambda>x. g\<lparr>group_Alias := group_Alias g @ [x]\<rparr>) \<and>
              prev = Some (deleteAliasFromGroup E ga))"
    by (rule bind_update_cases)
  from owner have E: "E \<in> set (groups i)" "alias_ID ga \<in> set (map alias_ID (group_Alias E))"
    by (auto simp: memDBGroupByAliasID_def find_Some_iff)
  from p(5) E(1) have idE: "group_ID E \<noteq> []" by blast
  from p(4) ga have idga: "alias_ID ga \<noteq> []" by (auto simp: genUUID_not_empty)
  define gid where "gid = group_ID (groupOf ga)"
  define a where
    "a = \<lparr>alias_ID = alias_ID ga, alias_Name = Get d ''name'', alias_MountType = mvr_MountType mv,
          alias_MountAccessor = mvr_MountAccessor mv, alias_GroupID = gid\<rparr>"
  have same: "alias_ID a = alias_ID ga" by (simp add: a_def)
  have factor: "\<forall>y\<in>set (groupAliases i). aliasFactors y = aliasFactors a \<longrightarrow> alias_ID y = alias_ID ga"
  proof (intro ballI impI)
    fix y assume y: "y \<in> set (groupAliases i)" "aliasFactors y = aliasFactors a"
    then have "\<exists>x\<in>set (groupAliases i). alias_MountAccessor x = mvr_MountAccessor mv \<and>
                 alias_Name x = Get d ''name''"
      by (auto simp: aliasFactors_def a_def)
    then obtain b where b: "memDBGroupAliasByFactors i (mvr_MountAccessor mv) (Get d ''name'') = Some b"
      by (cases "memDBGroupAliasByFactors i (mvr_MountAccessor mv) (Get d ''name'')")
         (auto simp: memDBGroupAliasByFactors_def find_None_iff)
    then have "b \<in> set (groupAliases i)" "aliasFactors b = aliasFactors a"
      by (auto simp: memDBGroupAliasByFactors_def find_Some_iff aliasFactors_def a_def)
    with y p(2) have "y = b" by (metis distinct_map inj_on_def)
    with b nomatch show "alias_ID y = alias_ID ga" by simp
  qed
  have others: "alias_ID b \<noteq> alias_ID ga"
    if "h \<in> set (groups i)" "group_ID h \<noteq> group_ID E" "b \<in> set (group_Alias h)" for h b
  proof
    assume "alias_ID b = alias_ID ga"
    with E(2) obtain x where "x \<in> set (group_Alias E)" "alias_ID x = alias_ID b" by auto
    with p(6) E(1) that have "E = h" by blast
    with that show False by simp
  qed
  consider (in_place) "groupOf = (\<lambda>x. updateAliasInGroup E (alias_ID ga) x)" "prev = None"
    | (transfer) g where "memDBGroupByID i (Get d ''group_id'') = Some g"
        "Get d ''group_id'' \<noteq> []" "group_ID g \<noteq> group_ID E"
        "groupOf = (\<lambda>x. g\<lparr>group_Alias := group_Alias g @ [x]\<rparr>)"
        "prev = Some (deleteAliasFromGroup E ga)"
    using paths by (auto split: if_splits)
  then show ?thesis
  proof cases
    case in_place
    have gidE: "gid = group_ID E"
      by (simp add: gid_def in_place updateAliasInGroup_def)
    have unchanged: "(updateAliasInGroup E k x)\<lparr>group_ID := group_ID E\<rparr> = updateAliasInGroup E k x" for k x
      by (simp add: updateAliasInGroup_def)
    from persist idE idga have tables:
      "groupAliases i' = foldl (\<lambda>t x. upsert alias_ID x t) (groupAliases i)
                           (group_Alias (updateAliasInGroup E (alias_ID ga) a))"
      "groups i' = upsert group_ID (updateAliasInGroup E (alias_ID ga) a) (groups i)"
      "uuidCounter i' = uuidCounter i"
      using gidE
      by (auto simp: persist_unfold Let_def upsertGroup_def in_place a_def gid_def unchanged)
    have "a \<in> set (group_Alias (updateAliasInGroup E (alias_ID ga) a))"
      using E(2) by (auto simp: updateAliasInGroup_def)
    moreover have "\<forall>x\<in>set (group_Alias (updateAliasInGroup E (alias_ID ga) a)).
        x = a \<or> (x \<in> set (groupAliases i) \<and> alias_ID x \<noteq> alias_ID a)"
      using p(5) E(1) same by (auto simp: updateAliasInGroup_def)
    ultimately have AT: "groupAliases i' = upsert alias_ID a (groupAliases i)"
      unfolding tables(1) using p(1) by (intro foldl_upsert_one) simp_all
    from inv ga E same factor AT tables(2,3) have "storeInvariant i'"
      by (rule invariant_after_update_in_place)
    with same AT show ?thesis by (intro conjI exI [of _ a]) (simp_all add: a_def)
  next
    case transfer
    from transfer(1) have g: "g \<in> set (groups i)" "group_ID g = Get d ''group_id''"
      by (auto simp: memDBGroupByID_def find_Some_iff)
    have gidg: "gid = group_ID g"
      by (simp add: gid_def transfer)
    have unchanged: "g\<lparr>group_Alias := xs, group_ID := Get d ''group_id''\<rparr> = g\<lparr>group_Alias := xs\<rparr>" for xs
      using g(2) by (cases g) auto
    from persist idga transfer(2) g(2) have tables:
      "groupAliases i' = foldl (\<lambda>t x. upsert alias_ID x t) (groupAliases i) (group_Alias g @ [a])"
      "groups i' = upsert group_ID (g\<lparr>group_Alias := group_Alias g @ [a]\<rparr>)
                     (upsert group_ID (deleteAliasFromGroup E ga) (groups i))"
      "uuidCounter i' = uuidCounter i"
      using gidg
      by (auto simp: persist_unfold Let_def upsertGroup_def transfer a_def gid_def unchanged)
    have "\<forall>x\<in>set (group_Alias g @ [a]).
        x = a \<or> (x \<in> set (groupAliases i) \<and> alias_ID x \<noteq> alias_ID a)"
      using p(5) g(1) others [of g] transfer(3) same by auto
    then have AT: "groupAliases i' = upsert alias_ID a (groupAliases i)"
      unfolding tables(1) using p(1) by (intro foldl_upsert_one) simp_all
    from inv ga E g(1) transfer(3) same factor AT tables(2,3) have "storeInvariant i'"
      by (rule invariant_after_transfer)
    with same AT show ?thesis by (intro conjI exI [of _ a]) (simp_all add: a_def)
  qed
qed

lemma update_preserves_invariant:
  assumes "storeInvariant i" and "ga \<in> set (groupAliases i)"
    and "handleGroupAliasUpdateCommon i d (Some ga) = (Inr resp, i')"
  shows "storeInvariant i'"
  using update_effect [OF assms] by blast

lemma handle_preserves_invariant:
  assumes inv: "storeInvariant i"
    and arg: "\<And>ga. arg = Some ga \<Longrightarrow> ga \<in> set (groupAliases i)"
  shows "storeInvariant (snd (handleGroupAliasUpdateCommon i d arg))"
proof (cases "handleGroupAliasUpdateCommon i d arg")
  case (Pair r i')
  show ?thesis
  proof (cases r)
    case (Inl e)
    with Pair have "i' = i" by (simp add: handle_error_unchanged)
    with Pair inv show ?thesis by simp
  next
    case (Inr resp)
    show ?thesis
    proof (cases arg)
      case None
      with Pair Inr inv show ?thesis by (simp add: create_preserves_invariant)
    next
      case (Some ga)
      with arg have "ga \<in> set (groupAliases i)" by simp
      with Pair Inr Some inv show ?thesis by (simp add: update_preserves_invariant)
    qed
  qed
qed

lemma register_preserves_invariant:
  assumes "storeInvariant i"
  shows "storeInvariant (snd (pathGroupAliasRegister groupID i d))"
proof (cases "GetOk d ''id'' \<and> Get d ''id'' \<noteq> []")
  case False
  with assms show ?thesis
    by (auto simp: pathGroupAliasRegister_def pathGroupAliasIDUpdate_def
        intro: handle_preserves_invariant)
next
  case True
  show ?thesis
  proof (cases "memDBGroupAliasByID i groupID")
    case None
    with True assms show ?thesis
      by (simp add: pathGroupAliasRegister_def pathGroupAliasIDUpdate_def)
  next
    case (Some ga)
    then have "ga \<in> set (groupAliases i)"
      by (auto simp: memDBGroupAliasByID_def find_Some_iff)
    with assms have "storeInvariant (snd (handleGroupAliasUpdateCommon i d (Some ga)))"
      by (intro handle_preserves_invariant) simp_all
    with True Some show ?thesis
      by (simp add: pathGroupAliasRegister_def pathGroupAliasIDUpdate_def)
  qed
qed

lemma registerAll_preserves_invariant:
  "storeInvariant i \<Longrightarrow> storeInvariant (registerAll i requests)"
  by (induction i requests rule: registerAll.induct) (simp_all add: register_preserves_invariant)

subsection \<open>Registering: create or update\<close>




text \<open>
  C4. Evaluation at the failing input: the requested id \<^verbatim>\<open>uuid-i\<close> denotes an
  alias of the store, yet the update answers \<^verbatim>\<open>invalid group alias ID\<close>, because
  line 104 looks up \<^verbatim>\<open>groupID\<close> and not the requested id; and a requested id that
  denotes no alias updates the alias that \<^verbatim>\<open>groupID\<close> denotes.
\<close>

theorem id_update_ignores_requested_id:
  "memDBGroupAliasByID aliceStore
     (Get [(''id'', ''uuid-i''), (''name'', ''alice2''), (''mount_accessor'', ''auth_userpass_1234'')] ''id'')
     = Some alice \<and>
   pathGroupAliasIDUpdate [] aliceStore
     [(''id'', ''uuid-i''), (''name'', ''alice2''), (''mount_accessor'', ''auth_userpass_1234'')]
     = (Inl (ErrorResponse ''invalid group alias ID''), aliceStore) \<and>
   memDBGroupAliasByID aliceStore
     (Get [(''id'', ''no-such-alias''), (''name'', ''alice2''), (''mount_accessor'', ''auth_userpass_1234'')] ''id'')
     = None \<and>
   fst (pathGroupAliasIDUpdate ''uuid-i'' aliceStore
     [(''id'', ''no-such-alias''), (''name'', ''alice2''), (''mount_accessor'', ''auth_userpass_1234'')])
     = Inr \<lparr>Data_id = ''uuid-i'', Data_group_id = ''uuid-'', Warnings = []\<rparr>"
  by (simp add: handler_defs example_defs Let_def)

subsection \<open>Order of validation\<close>

text \<open>
  C6, as the claim states it, fails: with an empty name and a group id that does not
  resolve, the error is \<^verbatim>\<open>invalid group ID\<close>, not \<^verbatim>\<open>missing alias name\<close>.
\<close>

theorem validation_order_counterexample:
  "Get [(''group_id'', ''no-such-group'')] ''name'' = [] \<and>
   Get [(''group_id'', ''no-such-group'')] ''group_id'' \<noteq> [] \<and>
   memDBGroupByID emptyStore (Get [(''group_id'', ''no-such-group'')] ''group_id'') = None \<and>
   pathGroupAliasRegister [] emptyStore [(''group_id'', ''no-such-group'')]
     = (Inl (ErrorResponse ''invalid group ID''), emptyStore)"
  by (simp add: handler_defs example_defs Let_def)

text \<open>
  C6, amended. A register request is validated in this order: the id, when the request
  carries one (it must not be empty, and the lookup of the update path must find an
  alias); then the group id, then the name, then the mount accessor, then the mount
  validator. Each failure leaves the store unchanged.
\<close>

theorem validation_order:
  "(GetOk d ''id'' \<and> Get d ''id'' = [] \<longrightarrow>
      pathGroupAliasRegister groupID i d = (Inl (ErrorResponse ''empty group alias ID''), i)) \<and>
   (GetOk d ''id'' \<and> Get d ''id'' \<noteq> [] \<and> memDBGroupAliasByID i groupID = None \<longrightarrow>
      pathGroupAliasRegister groupID i d = (Inl (ErrorResponse ''invalid group alias ID''), i)) \<and>
   (\<not> GetOk d ''id'' \<or> Get d ''id'' \<noteq> [] \<and> memDBGroupAliasByID i groupID \<noteq> None \<longrightarrow>
      (Get d ''group_id'' \<noteq> [] \<and> memDBGroupByID i (Get d ''group_id'') = None \<longrightarrow>
         pathGroupAliasRegister groupID i d = (Inl (ErrorResponse ''invalid group ID''), i)) \<and>
      ((Get d ''group_id'' = [] \<or> memDBGroupByID i (Get d ''group_id'') \<noteq> None) \<and>
       Get d ''name'' = [] \<longrightarrow>
         pathGroupAliasRegister groupID i d = (Inl (ErrorResponse ''missing alias name''), i)) \<and>
      ((Get d ''group_id'' = [] \<or> memDBGroupByID i (Get d ''group_id'') \<noteq> None) \<and>
       Get d ''name'' \<noteq> [] \<and> Get d ''mount_accessor'' = [] \<longrightarrow>
         pathGroupAliasRegister groupID i d = (Inl (ErrorResponse ''missing mount_accessor''), i)) \<and>
      ((Get d ''group_id'' = [] \<or> memDBGroupByID i (Get d ''group_id'') \<noteq> None) \<and>
       Get d ''name'' \<noteq> [] \<and> Get d ''mount_accessor'' \<noteq> [] \<and>
       validateMountAccessorFunc i (Get d ''mount_accessor'') = None \<longrightarrow>
         pathGroupAliasRegister groupID i d =
           (Inl (ErrorResponseFmt (Sprintf ''invalid mount accessor %q'' [Get d ''mount_accessor''])),
            i)))"
proof -
  have handler:
    "(Get d ''group_id'' \<noteq> [] \<and> memDBGroupByID i (Get d ''group_id'') = None \<longrightarrow>
        handleGroupAliasUpdateCommon i d arg = (Inl (ErrorResponse ''invalid group ID''), i)) \<and>
     ((Get d ''group_id'' = [] \<or> memDBGroupByID i (Get d ''group_id'') \<noteq> None) \<and>
      Get d ''name'' = [] \<longrightarrow>
        handleGroupAliasUpdateCommon i d arg = (Inl (ErrorResponse ''missing alias name''), i)) \<and>
     ((Get d ''group_id'' = [] \<or> memDBGroupByID i (Get d ''group_id'') \<noteq> None) \<and>
      Get d ''name'' \<noteq> [] \<and> Get d ''mount_accessor'' = [] \<longrightarrow>
        handleGroupAliasUpdateCommon i d arg = (Inl (ErrorResponse ''missing mount_accessor''), i)) \<and>
     ((Get d ''group_id'' = [] \<or> memDBGroupByID i (Get d ''group_id'') \<noteq> None) \<and>
      Get d ''name'' \<noteq> [] \<and> Get d ''mount_accessor'' \<noteq> [] \<and>
      validateMountAccessorFunc i (Get d ''mount_accessor'') = None \<longrightarrow>
        handleGroupAliasUpdateCommon i d arg =
          (Inl (ErrorResponseFmt (Sprintf ''invalid mount accessor %q'' [Get d ''mount_accessor''])),
           i))" for arg
    by (simp add: handleGroupAliasUpdateCommon_def Let_def)
  show ?thesis
  proof (intro conjI impI)
    assume "GetOk d ''id'' \<and> Get d ''id'' = []"
    then show "pathGroupAliasRegister groupID i d = (Inl (ErrorResponse ''empty group alias ID''), i)"
      by (simp add: pathGroupAliasRegister_def pathGroupAliasIDUpdate_def)
  next
    assume "GetOk d ''id'' \<and> Get d ''id'' \<noteq> [] \<and> memDBGroupAliasByID i groupID = None"
    then show "pathGroupAliasRegister groupID i d = (Inl (ErrorResponse ''invalid group alias ID''), i)"
      by (simp add: pathGroupAliasRegister_def pathGroupAliasIDUpdate_def)
  next
    assume passed: "\<not> GetOk d ''id'' \<or> Get d ''id'' \<noteq> [] \<and> memDBGroupAliasByID i groupID \<noteq> None"
    then obtain arg where reg: "pathGroupAliasRegister groupID i d = handleGroupAliasUpdateCommon i d arg"
      by (cases "GetOk d ''id''"; cases "memDBGroupAliasByID i groupID")
         (auto simp: pathGroupAliasRegister_def pathGroupAliasIDUpdate_def)
    {
      assume "Get d ''group_id'' \<noteq> [] \<and> memDBGroupByID i (Get d ''group_id'') = None"
      with handler [of arg] reg
      show "pathGroupAliasRegister groupID i d = (Inl (ErrorResponse ''invalid group ID''), i)"
        by auto
    next
      assume "(Get d ''group_id'' = [] \<or> memDBGroupByID i (Get d ''group_id'') \<noteq> None) \<and>
              Get d ''name'' = []"
      with handler [of arg] reg
      show "pathGroupAliasRegister groupID i d = (Inl (ErrorResponse ''missing alias name''), i)"
        by auto
    next
      assume "(Get d ''group_id'' = [] \<or> memDBGroupByID i (Get d ''group_id'') \<noteq> None) \<and>
              Get d ''name'' \<noteq> [] \<and> Get d ''mount_accessor'' = []"
      with handler [of arg] reg
      show "pathGroupAliasRegister groupID i d = (Inl (ErrorResponse ''missing mount_accessor''), i)"
        by auto
    next
      assume "(Get d ''group_id'' = [] \<or> memDBGroupByID i (Get d ''group_id'') \<noteq> None) \<and>
              Get d ''name'' \<noteq> [] \<and> Get d ''mount_accessor'' \<noteq> [] \<and>
              validateMountAccessorFunc i (Get d ''mount_accessor'') = None"
      with handler [of arg] reg
      show "pathGroupAliasRegister groupID i d =
           (Inl (ErrorResponseFmt (Sprintf ''invalid mount accessor %q'' [Get d ''mount_accessor''])),
            i)"
        by auto
    }
  qed
qed

theorem validation_order_witness:
  "GetOk [(''id'', []), (''group_id'', ''no-such-group'')] ''id'' \<and>
   Get [(''id'', []), (''group_id'', ''no-such-group'')] ''id'' = [] \<and>
   pathGroupAliasRegister [] emptyStore [(''id'', []), (''group_id'', ''no-such-group'')]
     = (Inl (ErrorResponse ''empty group alias ID''), emptyStore) \<and>
   memDBGroupAliasByID aliceStore ''uuid-ii'' = None \<and>
   pathGroupAliasRegister ''uuid-ii'' aliceStore [(''id'', ''uuid-ii''), (''group_id'', ''no-such-group'')]
     = (Inl (ErrorResponse ''invalid group alias ID''), aliceStore) \<and>
   \<not> GetOk [(''group_id'', ''no-such-group'')] ''id'' \<and>
   memDBGroupByID emptyStore (Get [(''group_id'', ''no-such-group'')] ''group_id'') = None \<and>
   pathGroupAliasRegister [] emptyStore [(''group_id'', ''no-such-group'')]
     = (Inl (ErrorResponse ''invalid group ID''), emptyStore) \<and>
   memDBGroupAliasByID aliceStore ''uuid-i'' = Some alice \<and>
   pathGroupAliasRegister ''uuid-i'' aliceStore [(''id'', ''uuid-i''), (''group_id'', ''no-such-group'')]
     = (Inl (ErrorResponse ''invalid group ID''), aliceStore) \<and>
   memDBGroupByID aliceStore (Get [(''group_id'', ''uuid-'')] ''group_id'')
     = Some \<lparr>group_ID = ''uuid-'', group_Alias = [alice]\<rparr> \<and>
   pathGroupAliasRegister [] aliceStore [(''group_id'', ''uuid-'')]
     = (Inl (ErrorResponse ''missing alias name''), aliceStore) \<and>
   pathGroupAliasRegister [] aliceStore [(''name'', ''bob'')]
     = (Inl (ErrorResponse ''missing mount_accessor''), aliceStore) \<and>
   validateMountAccessorFunc aliceStore ''x'' = None \<and>
   pathGroupAliasRegister [] aliceStore [(''name'', ''bob''), (''mount_accessor'', ''x'')]
     = (Inl (ErrorResponseFmt (Sprintf ''invalid mount accessor %q'' [''x''])), aliceStore)"
  using validation_order [of "[(''id'', []), (''group_id'', ''no-such-group'')]" "[]" emptyStore]
        validation_order [of "[(''id'', ''uuid-ii''), (''group_id'', ''no-such-group'')]" "''uuid-ii''" aliceStore]
        validation_order [of "[(''group_id'', ''no-such-group'')]" "[]" emptyStore]
        validation_order [of "[(''id'', ''uuid-i''), (''group_id'', ''no-such-group'')]" "''uuid-i''" aliceStore]
        validation_order [of "[(''group_id'', ''uuid-'')]" "[]" aliceStore]
        validation_order [of "[(''name'', ''bob'')]" "[]" aliceStore]
        validation_order [of "[(''name'', ''bob''), (''mount_accessor'', ''x'')]" "[]" aliceStore]
  by (simp add: GetOk_def Get_def memDBGroupByID_def memDBGroupAliasByID_def example_defs)

subsection \<open>Uniqueness of the factors\<close>

text \<open>
  What holds of the code: from a store that satisfies the invariant, such as the empty
  store, no run of register requests leads to an index in which two aliases share their
  mount accessor and name; a create request that passes the validation and whose factors
  match an alias of the index is rejected; and so is the alias handed to the common
  handler when the match has another id than that alias.
\<close>

lemma registered_factors_unique:
  "storeInvariant i \<Longrightarrow> distinct (map aliasFactors (groupAliases (registerAll i requests)))"
  using registerAll_preserves_invariant [of i requests] by (simp add: storeInvariant_def)

lemma create_collision_rejected:
  assumes "\<not> GetOk d ''id''"
    and "Get d ''group_id'' = [] \<or> memDBGroupByID i (Get d ''group_id'') \<noteq> None"
    and "Get d ''name'' \<noteq> []" and "Get d ''mount_accessor'' \<noteq> []"
    and "validateMountAccessorFunc i (Get d ''mount_accessor'') = Some mv"
    and "memDBGroupAliasByFactors i (mvr_MountAccessor mv) (Get d ''name'') = Some b"
  shows "pathGroupAliasRegister groupID i d =
           (Inl (ErrorResponse ''combination of mount and group alias name is already in use''), i)"
  using assms
  by (auto simp: pathGroupAliasRegister_def handleGroupAliasUpdateCommon_def
      bindAliasToGroup_def Let_def)

lemma handler_update_collision_rejected:
  assumes "Get d ''group_id'' = [] \<or> memDBGroupByID i (Get d ''group_id'') \<noteq> None"
    and "Get d ''name'' \<noteq> []" and "Get d ''mount_accessor'' \<noteq> []"
    and "validateMountAccessorFunc i (Get d ''mount_accessor'') = Some mv"
    and "memDBGroupAliasByFactors i (mvr_MountAccessor mv) (Get d ''name'') = Some b"
    and "alias_ID b \<noteq> alias_ID groupAlias"
  shows "handleGroupAliasUpdateCommon i d (Some groupAlias) =
           (Inl (ErrorResponse ''combination of mount and group alias name is already in use''), i)"
  using assms
  by (auto simp: handleGroupAliasUpdateCommon_def bindAliasToGroup_def Let_def)

text \<open>
  C1. Evaluation at the failing input: in \<open>twoGroupStore\<close> the update request for
  the id \<^verbatim>\<open>uuid-iii\<close> (the alias \<^verbatim>\<open>dave\<close>) carries the name and the mount
  accessor of the alias \<^verbatim>\<open>alice\<close>, whose id is another one. It does not fail
  with the uniqueness error, because line 104 looks up \<^verbatim>\<open>groupID\<close> and not the
  requested id: when \<^verbatim>\<open>groupID\<close> denotes \<^verbatim>\<open>alice\<close> the request succeeds, and
  with a group id it transfers \<^verbatim>\<open>alice\<close> and changes the store; when
  \<^verbatim>\<open>groupID\<close> denotes no alias it fails with \<^verbatim>\<open>invalid group alias ID\<close>.
\<close>

theorem update_collision_not_rejected:
  "memDBGroupAliasByID twoGroupStore
      (Get [(''id'', ''uuid-iii''), (''name'', ''alice''), (''mount_accessor'', ''auth_userpass_1234'')] ''id'')
     = Some dave \<and>
   memDBGroupAliasByFactors twoGroupStore ''auth_userpass_1234'' ''alice'' = Some alice \<and>
   alias_ID alice \<noteq> alias_ID dave \<and>
   pathGroupAliasRegister ''uuid-i'' twoGroupStore
      [(''id'', ''uuid-iii''), (''name'', ''alice''), (''mount_accessor'', ''auth_userpass_1234'')]
     = (Inr \<lparr>Data_id = ''uuid-i'', Data_group_id = ''uuid-'', Warnings = []\<rparr>, twoGroupStore) \<and>
   pathGroupAliasRegister [] twoGroupStore
      [(''id'', ''uuid-iii''), (''name'', ''alice''), (''mount_accessor'', ''auth_userpass_1234'')]
     = (Inl (ErrorResponse ''invalid group alias ID''), twoGroupStore) \<and>
   fst (pathGroupAliasRegister ''uuid-i'' twoGroupStore
      [(''id'', ''uuid-iii''), (''name'', ''alice''), (''mount_accessor'', ''auth_userpass_1234''),
       (''group_id'', ''uuid-ii'')])
     = Inr \<lparr>Data_id = ''uuid-i'', Data_group_id = ''uuid-ii'',
            Warnings = [Sprintf ''group alias is being transferred from group %q to %q''
                          [''uuid-'', ''uuid-ii'']]\<rparr> \<and>
   groups (snd (pathGroupAliasRegister ''uuid-i'' twoGroupStore
      [(''id'', ''uuid-iii''), (''name'', ''alice''), (''mount_accessor'', ''auth_userpass_1234''),
       (''group_id'', ''uuid-ii'')]))
     = [\<lparr>group_ID = ''uuid-'', group_Alias = []\<rparr>,
        \<lparr>group_ID = ''uuid-ii'', group_Alias = [dave, alice\<lparr>alias_GroupID := ''uuid-ii''\<rparr>]\<rparr>]"
  by (simp add: handler_defs example_defs Let_def)

subsection \<open>Transfer\<close>

text \<open>
  What holds of the code: when the common handler succeeds for the alias it was handed,
  with a group id that is given and differs from the id of that alias's owning group, the
  response carries the transfer warning; in the index and in the packed storage the old
  group is the owning group without the alias, and the target group is the target group
  with the alias appended.
\<close>

lemma handler_transfer_moves_alias:
  assumes ok: "handleGroupAliasUpdateCommon i d (Some groupAlias) = (Inr resp, i')"
    and id: "alias_ID groupAlias \<noteq> []"
    and given: "Get d ''group_id'' \<noteq> []"
    and owner: "memDBGroupByAliasID i (alias_ID groupAlias) = Some existingGroup"
    and differs: "Get d ''group_id'' \<noteq> group_ID existingGroup"
  shows "Data_id resp = alias_ID groupAlias \<and> Data_group_id resp = Get d ''group_id'' \<and>
         Warnings resp = [Sprintf ''group alias is being transferred from group %q to %q''
                            [group_ID existingGroup, Get d ''group_id'']] \<and>
         (\<exists>old. memDBGroupByID i' (group_ID existingGroup) = Some old \<and>
                find (\<lambda>g. group_ID g = group_ID existingGroup) (groupPacker i') = Some old \<and>
                group_Alias old
                  = filter (\<lambda>x. alias_ID x \<noteq> alias_ID groupAlias) (group_Alias existingGroup) \<and>
                alias_ID groupAlias \<notin> set (map alias_ID (group_Alias old))) \<and>
         (\<exists>g new a. memDBGroupByID i (Get d ''group_id'') = Some g \<and>
                memDBGroupByID i' (Get d ''group_id'') = Some new \<and>
                find (\<lambda>g. group_ID g = Get d ''group_id'') (groupPacker i') = Some new \<and>
                group_Alias new = group_Alias g @ [a] \<and>
                alias_ID a = alias_ID groupAlias \<and> alias_GroupID a = Get d ''group_id'' \<and>
                alias_Name a = Get d ''name'')"
proof -
  from ok obtain mv groupOf prev ws where
    resolves: "Get d ''group_id'' = [] \<or> memDBGroupByID i (Get d ''group_id'') \<noteq> None"
    and bind: "bindAliasToGroup i False groupAlias
           (if Get d ''group_id'' \<noteq> [] then memDBGroupByID i (Get d ''group_id'') else None)
           (memDBGroupAliasByFactors i (mvr_MountAccessor mv) (Get d ''name''))
         = Inr (groupOf, prev, ws)"
    and persist: "persistGroupAlias i groupAlias (Get d ''name'') mv groupOf prev ws = (Inr resp, i')"
    by (rule handle_success) simp_all
  from resolves given obtain g where g: "memDBGroupByID i (Get d ''group_id'') = Some g"
    by auto
  then have gid: "group_ID g = Get d ''group_id''"
    by (auto simp: memDBGroupByID_def dest: find_holds)
  from bind g given owner differs gid
  have groupOf: "groupOf = (\<lambda>a. g\<lparr>group_Alias := group_Alias g @ [a]\<rparr>)"
    and prev: "prev = Some (deleteAliasFromGroup existingGroup groupAlias)"
    and ws: "ws = [Sprintf ''group alias is being transferred from group %q to %q''
                     [group_ID existingGroup, Get d ''group_id'']]"
    by (auto simp: bindAliasToGroup_def Let_def split: if_splits option.splits)
  define a where
    "a = \<lparr>alias_ID = alias_ID groupAlias, alias_Name = Get d ''name'',
          alias_MountType = mvr_MountType mv, alias_MountAccessor = mvr_MountAccessor mv,
          alias_GroupID = Get d ''group_id''\<rparr>"
  define old where "old = deleteAliasFromGroup existingGroup groupAlias"
  define new where "new = g\<lparr>group_Alias := group_Alias g @ [a]\<rparr>"
  have same: "g\<lparr>group_Alias := xs, group_ID := Get d ''group_id''\<rparr> = g\<lparr>group_Alias := xs\<rparr>" for xs
    using gid by (cases g) auto
  from persist id given gid
  have resp: "resp = \<lparr>Data_id = alias_ID groupAlias, Data_group_id = Get d ''group_id'', Warnings = ws\<rparr>"
    and groups: "groups i' = upsert group_ID new (upsert group_ID old (groups i))"
    and packer: "groupPacker i' = upsert group_ID new (upsert group_ID old (groupPacker i))"
    by (auto simp: persist_unfold Let_def upsertGroup_def groupOf prev a_def old_def new_def same)
  have ids: "group_ID old = group_ID existingGroup" "group_ID new = Get d ''group_id''"
    by (simp_all add: old_def new_def deleteAliasFromGroup_def gid)
  have "memDBGroupByID i' (group_ID existingGroup) = Some old"
    and "find (\<lambda>g. group_ID g = group_ID existingGroup) (groupPacker i') = Some old"
    and "memDBGroupByID i' (Get d ''group_id'') = Some new"
    and "find (\<lambda>g. group_ID g = Get d ''group_id'') (groupPacker i') = Some new"
    using differs by (simp_all add: memDBGroupByID_def groups packer find_upsert ids)
  moreover have "group_Alias old
       = filter (\<lambda>x. alias_ID x \<noteq> alias_ID groupAlias) (group_Alias existingGroup)"
    and "alias_ID groupAlias \<notin> set (map alias_ID (group_Alias old))"
    by (auto simp: old_def deleteAliasFromGroup_def)
  moreover have "group_Alias new = group_Alias g @ [a]" "alias_ID a = alias_ID groupAlias"
    "alias_GroupID a = Get d ''group_id''" "alias_Name a = Get d ''name''"
    by (simp_all add: new_def a_def)
  ultimately show ?thesis using resp ws g by auto
qed

text \<open>
  C5. Evaluation at the failing input: in \<open>twoGroupStore\<close> the update request for
  the id \<^verbatim>\<open>uuid-i\<close> (the alias \<^verbatim>\<open>alice\<close>, owned by the group
  \<^verbatim>\<open>uuid-\<close>) gives the group id \<^verbatim>\<open>uuid-ii\<close>. The alias is not transferred,
  because line 104 looks up \<^verbatim>\<open>groupID\<close> and not the requested id: when
  \<^verbatim>\<open>groupID\<close> denotes \<^verbatim>\<open>dave\<close>, that alias is renamed in its own group, the
  response carries no warning and \<^verbatim>\<open>alice\<close> stays in her group; when
  \<^verbatim>\<open>groupID\<close> denotes no alias the request fails with
  \<^verbatim>\<open>invalid group alias ID\<close>.
\<close>

theorem transfer_moves_other_alias:
  "memDBGroupAliasByID twoGroupStore
      (Get [(''id'', ''uuid-i''), (''name'', ''alicia''), (''mount_accessor'', ''auth_userpass_1234''),
            (''group_id'', ''uuid-ii'')] ''id'')
     = Some alice \<and>
   memDBGroupByAliasID twoGroupStore (alias_ID alice)
     = Some \<lparr>group_ID = ''uuid-'', group_Alias = [alice]\<rparr> \<and>
   pathGroupAliasRegister ''uuid-iii'' twoGroupStore
      [(''id'', ''uuid-i''), (''name'', ''alicia''), (''mount_accessor'', ''auth_userpass_1234''),
       (''group_id'', ''uuid-ii'')]
     = (Inr \<lparr>Data_id = ''uuid-iii'', Data_group_id = ''uuid-ii'', Warnings = []\<rparr>,
        twoGroupStore
          \<lparr>groupAliases := [alice, dave\<lparr>alias_Name := ''alicia''\<rparr>],
            groups := [\<lparr>group_ID = ''uuid-'', group_Alias = [alice]\<rparr>,
                       \<lparr>group_ID = ''uuid-ii'', group_Alias = [dave\<lparr>alias_Name := ''alicia''\<rparr>]\<rparr>],
            groupPacker := [\<lparr>group_ID = ''uuid-'', group_Alias = [alice]\<rparr>,
                            \<lparr>group_ID = ''uuid-ii'', group_Alias = [dave\<lparr>alias_Name := ''alicia''\<rparr>]\<rparr>]\<rparr>) \<and>
   pathGroupAliasRegister [] twoGroupStore
      [(''id'', ''uuid-i''), (''name'', ''alicia''), (''mount_accessor'', ''auth_userpass_1234''),
       (''group_id'', ''uuid-ii'')]
     = (Inl (ErrorResponse ''invalid group alias ID''), twoGroupStore)"
  by (simp add: handler_defs example_defs Let_def)

end
